theory Spec2Isabelle
  imports Main "HOL-Library.Word" "HOL-Library.Sublist"
begin

section \<open>Shared vocabulary: errors, log calls, outcomes of a call\<close>

text \<open>
  A Go \<open>error\<close> value. \<open>External\<close> is an error produced outside the repository (by the
  operating system, gRPC, net/http); \<open>Message\<close> is an error the repository creates from a
  text alone; \<open>Errorf\<close> is \<open>fmt.Errorf(prefix + verb, err)\<close>, the prefix kept as written in
  the source and the formatted error kept as the argument (the verb is \<open>%w\<close> or \<open>%v\<close>).
  A \<open>nil\<close> error is \<open>None :: error option\<close>.
\<close>

datatype error = External string | Message string | Errorf string error

datatype level = LevelDebug | LevelInfo | LevelError

text \<open>One call of the structured logger: level, message, and the error attribute when the
  call passes one (\<open>"error", err\<close>).\<close>

datatype log_entry = Log level string "error option"

text \<open>
  How a Go call ends: it returns a value, it panics with a message, or it never returns
  because it blocks forever on a channel operation.
\<close>

datatype 'a outcome = Returned 'a | Panicked string | Blocked

section \<open>Package tundeviceplugin: the protocol server\<close>

subsection \<open>Data model\<close>

definition tunPath :: string where "tunPath = ''/dev/net/tun''"
definition tunName :: string where "tunName = ''tun''"
definition rwPerm :: string where "rwPerm = ''rw''"

datatype health = Healthy | Unhealthy

record Device =
  ID :: string
  Health :: health

record ListAndWatchResponse =
  Devices :: "Device list"

record DeviceSpec =
  ContainerPath :: string
  HostPath :: string
  Permissions :: string

record ContainerAllocateRequest =
  DevicesIDs :: "string list"

record AllocateRequest =
  ContainerRequests :: "ContainerAllocateRequest list"

record ContainerAllocateResponse =
  Devices_c :: "DeviceSpec list"

record AllocateResponse =
  ContainerResponses :: "ContainerAllocateResponse list"

text \<open>
  The \<open>Server\<close> struct. \<open>devices\<close> is a Go \<open>uint\<close>; the loop counter of \<open>discover\<close> stays
  below it, so no arithmetic on it can wrap and it is modelled as \<open>nat\<close>. The logger is
  represented by the list of log calls the server has issued (\<open>srv_log\<close>); the \<open>update\<close>
  channel is not a field of the model: what happens on it is an input of \<open>ListAndWatch\<close>
  and \<open>Allocate\<close>.
\<close>

record Server =
  namespace :: string
  devices :: nat
  devs :: "Device list"
  srv_log :: "log_entry list"

subsection \<open>\<open>fmt.Sprintf("%s%d", tunName, i)\<close>\<close>

function fmt_d :: "nat \<Rightarrow> string" where
  "fmt_d n = (if n < 10 then [''0123456789'' ! n]
              else fmt_d (n div 10) @ [''0123456789'' ! (n mod 10)])"
  by pat_completeness auto
termination
  by (relation "measure id") auto

declare fmt_d.simps [simp del]

text \<open>Reading a decimal numeral back, to state that \<open>fmt_d\<close> writes the digits of its argument.\<close>

definition digit_val :: "char \<Rightarrow> nat" where
  "digit_val c = of_char c - 48"

definition dec_val :: "string \<Rightarrow> nat" where
  "dec_val cs = foldl (\<lambda>a c. 10 * a + digit_val c) 0 cs"

definition device_id :: "nat \<Rightarrow> string" where
  "device_id i = tunName @ fmt_d i"

subsection \<open>\<open>New\<close> and \<open>discover\<close>\<close>

text \<open>
  \<open>os.Stat(tunPath)\<close> is an input: \<open>stat p\<close> is the error it returns for path \<open>p\<close>
  (\<open>None\<close> when the path exists and can be examined).
\<close>

function discover_loop :: "nat \<Rightarrow> Server \<Rightarrow> Server" where
  "discover_loop i s =
     (if i < devices s
      then discover_loop (i + 1)
             (s\<lparr>devs := devs s @ [\<lparr>ID = device_id i, Health = Healthy\<rparr>]\<rparr>)
      else s)"
  by pat_completeness auto
termination
  by (relation "measure (\<lambda>(i, s). devices s - i)") auto

declare discover_loop.simps [simp del]

definition discover :: "(string \<Rightarrow> error option) \<Rightarrow> Server \<Rightarrow> Server" where
  "discover stat s =
     (case stat tunPath of
        None \<Rightarrow>
          discover_loop 0
            (s\<lparr>srv_log := srv_log s @ [Log LevelDebug ''Discovered tun device'' None]\<rparr>)
      | Some _ \<Rightarrow>
          s\<lparr>srv_log := srv_log s @ [Log LevelError ''No tun device found'' None]\<rparr>)"

definition New :: "(string \<Rightarrow> error option) \<Rightarrow> string \<Rightarrow> nat \<Rightarrow> Server" where
  "New stat ns n =
     discover stat \<lparr>namespace = ns, devices = n, devs = [], srv_log = []\<rparr>"

subsection \<open>\<open>ListAndWatch\<close>\<close>

text \<open>
  The stream and the \<open>update\<close> channel are the environment of one \<open>ListAndWatch\<close> call:
  \<^item> \<open>send_result k\<close> is what the \<open>k\<close>-th \<open>lws.Send\<close> of the call returns;
  \<^item> \<open>signals\<close> is the number of values the call receives from \<open>s.update\<close>;
  \<^item> after them the channel is either closed (\<open>ChanClosed\<close>: the \<open>range\<close> loop ends) or
    stays open and silent (\<open>ChanSilent\<close>: the receive blocks forever).
  The call's observable actions are recorded in order in \<open>lw_trace\<close>.
\<close>

datatype chan_end = ChanClosed | ChanSilent

datatype lw_event =
    EvSend ListAndWatchResponse
  | EvRecv
  | EvLog log_entry

record lw_state =
  lw_sends :: nat
  lw_trace :: "lw_event list"

definition lw_init :: lw_state where
  "lw_init = \<lparr>lw_sends = 0, lw_trace = []\<rparr>"

definition lws_Send ::
  "(nat \<Rightarrow> error option) \<Rightarrow> ListAndWatchResponse \<Rightarrow> lw_state \<Rightarrow> error option \<times> lw_state" where
  "lws_Send send_result r st =
     (send_result (lw_sends st),
      st\<lparr>lw_sends := lw_sends st + 1, lw_trace := lw_trace st @ [EvSend r]\<rparr>)"

text \<open>The statement \<open>if err := lws.Send(...); err != nil { s.log.Error(...) }\<close>.\<close>

definition send_roster :: "Server \<Rightarrow> (nat \<Rightarrow> error option) \<Rightarrow> lw_state \<Rightarrow> lw_state" where
  "send_roster s send_result st =
     (case lws_Send send_result \<lparr>Devices = devs s\<rparr> st of
        (None, st') \<Rightarrow> st'
      | (Some err, st') \<Rightarrow>
          st'\<lparr>lw_trace := lw_trace st' @
                 [EvLog (Log LevelError ''Failed to send ListAndWatch response'' (Some err))]\<rparr>)"

text \<open>The loop \<open>for range s.update { ... }\<close> over the signals received.\<close>

fun range_update :: "Server \<Rightarrow> (nat \<Rightarrow> error option) \<Rightarrow> nat \<Rightarrow> lw_state \<Rightarrow> lw_state" where
  "range_update s send_result 0 st = st"
| "range_update s send_result (Suc n) st =
     range_update s send_result n
       (send_roster s send_result (st\<lparr>lw_trace := lw_trace st @ [EvRecv]\<rparr>))"

definition ListAndWatch ::
  "Server \<Rightarrow> (nat \<Rightarrow> error option) \<Rightarrow> nat \<Rightarrow> chan_end \<Rightarrow> error option outcome \<times> lw_state" where
  "ListAndWatch s send_result signals fin =
     (let st1 = send_roster s send_result lw_init;
          st2 = range_update s send_result signals st1
      in (case fin of
            ChanClosed \<Rightarrow> (Panicked ''unexpected error'', st2)
          | ChanSilent \<Rightarrow> (Blocked, st2)))"

subsection \<open>\<open>Allocate\<close>\<close>

text \<open>
  \<open>s.update <- struct{}{}\<close> is a send on an unbuffered channel: it completes when some
  \<open>ListAndWatch\<close> call receives the value and blocks otherwise. \<open>receiver\<close> says whether a
  receiver ever takes the value. The request is never read.
\<close>

definition tun_spec :: DeviceSpec where
  "tun_spec = \<lparr>ContainerPath = tunPath, HostPath = tunPath, Permissions = rwPerm\<rparr>"

definition Allocate ::
  "Server \<Rightarrow> bool \<Rightarrow> AllocateRequest \<Rightarrow> (AllocateResponse \<times> error option) outcome" where
  "Allocate s receiver req =
     (if receiver
      then (let devices = [tun_spec]
            in Returned (\<lparr>ContainerResponses = [\<lparr>Devices_c = devices\<rparr>]\<rparr>, None))
      else Blocked)"

text \<open>What a finished \<open>Allocate\<close> call hands out: its container responses (none when the
  call does not return).\<close>

definition allocated ::
  "(AllocateResponse \<times> error option) outcome \<Rightarrow> ContainerAllocateResponse list" where
  "allocated out = (case out of Returned (resp, err) \<Rightarrow> ContainerResponses resp | _ \<Rightarrow> [])"

text \<open>Projections of a \<open>ListAndWatch\<close> trace: the channel and stream actions, and the log calls.\<close>

fun is_action :: "lw_event \<Rightarrow> bool" where
  "is_action (EvLog l) = False"
| "is_action e = True"

definition lw_actions :: "lw_event list \<Rightarrow> lw_event list" where
  "lw_actions tr = filter is_action tr"

fun log_of :: "lw_event \<Rightarrow> log_entry option" where
  "log_of (EvLog l) = Some l"
| "log_of e = None"

definition lw_logs :: "lw_event list \<Rightarrow> log_entry list" where
  "lw_logs tr = List.map_filter log_of tr"

section \<open>Package plugin: the registration client\<close>

subsection \<open>Durations and the retry policy\<close>

text \<open>\<open>time.Duration\<close> is an \<open>int64\<close> count of nanoseconds.\<close>

type_synonym Duration = "64 word"

definition Millisecond :: Duration where "Millisecond = 1000000"
definition Second :: Duration where "Second = 1000000000"

definition baseDelay :: Duration where "baseDelay = 100 * Millisecond"
definition maxDelay :: Duration where "maxDelay = 5 * Second"
definition maxRetries :: nat where "maxRetries = 5"

text \<open>
  The body of the loop after a failed attempt:
  \<open>backoffDelay := baseDelay * (1 << attempt); if backoffDelay > maxDelay { backoffDelay = maxDelay }\<close>.
  The untyped constant \<open>1\<close> takes the type of \<open>baseDelay\<close>, so shift and product are
  64-bit and wrap; the comparison is signed. \<open>attempt\<close> is never negative.
\<close>

definition computedDelay :: "nat \<Rightarrow> Duration" where
  "computedDelay attempt = baseDelay * push_bit attempt 1"

definition backoffDelay :: "nat \<Rightarrow> Duration" where
  "backoffDelay attempt =
     (if maxDelay <s computedDelay attempt then maxDelay else computedDelay attempt)"

subsection \<open>The world the client acts on\<close>

datatype ServingStatus = UNKNOWN | SERVING | NOT_SERVING | SERVICE_UNKNOWN

fun status_name :: "ServingStatus \<Rightarrow> string" where
  "status_name UNKNOWN = ''UNKNOWN''"
| "status_name SERVING = ''SERVING''"
| "status_name NOT_SERVING = ''NOT_SERVING''"
| "status_name SERVICE_UNKNOWN = ''SERVICE_UNKNOWN''"

record RegisterRequest =
  Version :: string
  ResourceName :: string
  Endpoint :: string

text \<open>
  The calls that leave the process, in the order they are made. Log calls keep level and
  message (their attributes are dropped).
\<close>

datatype pl_event =
    EvNewClient string
  | EvCheck string
  | EvRegister RegisterRequest
  | EvSleep Duration
  | EvClose string
  | EvLogged level string

text \<open>
  The environment answers the calls: \<open>NewClient target k\<close> is the error of the \<open>k\<close>-th
  \<open>grpc.NewClient\<close> call of the process, \<open>Check name k\<close> the result of the \<open>k\<close>-th health
  check (an error, or a response with a status), \<open>Register req k\<close> the error of the \<open>k\<close>-th
  \<open>Register\<close> call. The context \<open>ctx\<close> is part of the environment: a cancelled context shows
  as the error of the call that observes it.
\<close>

record env =
  NewClient :: "string \<Rightarrow> nat \<Rightarrow> error option"
  Check :: "string \<Rightarrow> nat \<Rightarrow> error + ServingStatus"
  Register :: "RegisterRequest \<Rightarrow> nat \<Rightarrow> error option"

text \<open>\<open>PanicCounter\<close> is the counter \<open>metrics.PanicCounter\<close>; \<open>Inc\<close> adds one to it.\<close>

record world =
  dials :: nat
  checks :: nat
  registers :: nat
  PanicCounter :: nat
  events :: "pl_event list"

definition world0 :: world where
  "world0 = \<lparr>dials = 0, checks = 0, registers = 0, PanicCounter = 0, events = []\<rparr>"

definition emit :: "pl_event \<Rightarrow> world \<Rightarrow> world" where
  "emit ev w = w\<lparr>events := events w @ [ev]\<rparr>"

definition time_Sleep :: "Duration \<Rightarrow> world \<Rightarrow> world" where
  "time_Sleep d w = emit (EvSleep d) w"

definition log_call :: "level \<Rightarrow> string \<Rightarrow> world \<Rightarrow> world" where
  "log_call lv msg w = emit (EvLogged lv msg) w"

text \<open>A connection handle is the target it was created for; \<open>None\<close> is the \<open>nil\<close> pointer.\<close>

type_synonym ClientConn = string

definition grpc_NewClient :: "env \<Rightarrow> string \<Rightarrow> world \<Rightarrow> (ClientConn option \<times> error option) \<times> world" where
  "grpc_NewClient e target w =
     (let err = NewClient e target (dials w);
          w' = emit (EvNewClient target) (w\<lparr>dials := dials w + 1\<rparr>)
      in ((if err = None then Some target else None, err), w'))"

definition conn_Close :: "ClientConn option \<Rightarrow> world \<Rightarrow> world" where
  "conn_Close conn w = (case conn of Some c \<Rightarrow> emit (EvClose c) w | None \<Rightarrow> w)"

definition health_Check :: "env \<Rightarrow> string \<Rightarrow> world \<Rightarrow> (error + ServingStatus) \<times> world" where
  "health_Check e name w =
     (Check e name (checks w), emit (EvCheck name) (w\<lparr>checks := checks w + 1\<rparr>))"

definition registration_Register :: "env \<Rightarrow> RegisterRequest \<Rightarrow> world \<Rightarrow> error option \<times> world" where
  "registration_Register e req w =
     (Register e req (registers w), emit (EvRegister req) (w\<lparr>registers := registers w + 1\<rparr>))"

subsection \<open>\<open>retry\<close>\<close>

text \<open>
  The operation passed to \<open>retry\<close> is a closure: it acts on the variables it captures
  (\<open>'c\<close>) and on the world, and returns an error. After a failed attempt the loop logs
  and sleeps; after \<open>maxRetries\<close> failed attempts it wraps the last error.
\<close>

definition after_failure :: "nat \<Rightarrow> world \<Rightarrow> world" where
  "after_failure attempt w =
     time_Sleep (backoffDelay attempt) (log_call LevelDebug ''Failure, retrying'' w)"

definition retry_error :: "error option \<Rightarrow> error" where
  "retry_error err =
     (case err of
        Some e \<Rightarrow> Errorf ''failed to create connection to local gRPC server after 5 attempts: '' e
      | None \<Rightarrow> Message ''failed to create connection to local gRPC server after 5 attempts: %!w(<nil>)'')"

function retry_loop ::
  "('c \<times> world \<Rightarrow> error option \<times> 'c \<times> world) \<Rightarrow> nat \<Rightarrow> error option \<Rightarrow> 'c \<times> world
     \<Rightarrow> error option \<times> 'c \<times> world" where
  "retry_loop op attempt err s =
     (if attempt < maxRetries
      then (case op s of
              (None, s') \<Rightarrow> (None, s')
            | (Some e, (c, w)) \<Rightarrow>
                retry_loop op (attempt + 1) (Some e) (c, after_failure attempt w))
      else (Some (retry_error err), s))"
  by pat_completeness auto
termination
  by (relation "measure (\<lambda>(op, attempt, err, s). maxRetries - attempt)") auto

declare retry_loop.simps [simp del]

definition retry ::
  "('c \<times> world \<Rightarrow> error option \<times> 'c \<times> world) \<Rightarrow> 'c \<times> world \<Rightarrow> error option \<times> 'c \<times> world" where
  "retry op s = retry_loop op 0 None s"

text \<open>
  The state in which attempt \<open>k\<close> starts when the attempts before it have failed, and the
  error attempt \<open>k\<close> then returns.
\<close>

fun attempt_state ::
  "('c \<times> world \<Rightarrow> error option \<times> 'c \<times> world) \<Rightarrow> 'c \<times> world \<Rightarrow> nat \<Rightarrow> 'c \<times> world" where
  "attempt_state op s 0 = s"
| "attempt_state op s (Suc k) =
     (case snd (op (attempt_state op s k)) of (c, w) \<Rightarrow> (c, after_failure k w))"

definition attempt_err ::
  "('c \<times> world \<Rightarrow> error option \<times> 'c \<times> world) \<Rightarrow> 'c \<times> world \<Rightarrow> nat \<Rightarrow> error option" where
  "attempt_err op s k = fst (op (attempt_state op s k))"

subsection \<open>The handshake\<close>

definition connect_op :: "env \<Rightarrow> string \<Rightarrow> ClientConn option \<times> world \<Rightarrow> error option \<times> ClientConn option \<times> world" where
  "connect_op e socket s =
     (case grpc_NewClient e socket (snd s) of ((conn, err), w') \<Rightarrow> (err, (conn, w')))"

definition connectGRPCWithRetry ::
  "env \<Rightarrow> string \<Rightarrow> world \<Rightarrow> (ClientConn option \<times> error option) \<times> world" where
  "connectGRPCWithRetry e socket w =
     (case retry (connect_op e socket) (None, w) of (err, (conn, w')) \<Rightarrow> ((conn, err), w'))"

definition check_op :: "env \<Rightarrow> string \<Rightarrow> unit \<times> world \<Rightarrow> error option \<times> unit \<times> world" where
  "check_op e name s =
     (case health_Check e name (snd s) of
        (Inl err, w') \<Rightarrow> (Some err, ((), w'))
      | (Inr status, w') \<Rightarrow>
          (if status \<noteq> SERVING
           then (Some (Message (''invalid status: '' @ status_name status)), ((), w'))
           else (None, ((), w'))))"

definition waitForPluginReady :: "env \<Rightarrow> string \<Rightarrow> string \<Rightarrow> world \<Rightarrow> error option \<times> world" where
  "waitForPluginReady e name socket w =
     (case connectGRPCWithRetry e socket (log_call LevelInfo ''Waiting for socket ready'' w) of
        ((conn, Some err), w1) \<Rightarrow>
          (Some (Errorf ''failed to create connection to local gRPC server: '' err), w1)
      | ((conn, None), w1) \<Rightarrow>
          (case retry (check_op e name) ((), w1) of
             (Some err, (u, w2)) \<Rightarrow>
               (Some (Errorf ''failed to check health of the service: '' err), conn_Close conn w2)
           | (None, (u, w2)) \<Rightarrow> (None, conn_Close conn w2)))"

text \<open>Constants of the device-plugin API package \<open>v1beta1\<close>.\<close>

definition DevicePluginPath :: string where
  "DevicePluginPath = ''/var/lib/kubelet/device-plugins/''"
definition KubeletSocket :: string where
  "KubeletSocket = DevicePluginPath @ ''kubelet.sock''"
definition api_Version :: string where
  "api_Version = ''v1beta1''"

text \<open>\<open>filepath.Base\<close> on a Unix path.\<close>

definition filepath_Base :: "string \<Rightarrow> string" where
  "filepath_Base path =
     (if path = [] then ''.''
      else (let stripped = rev (dropWhile (\<lambda>c. c = CHR ''/'') (rev path));
                base = rev (takeWhile (\<lambda>c. c \<noteq> CHR ''/'') (rev stripped))
            in if base = [] then ''/'' else base))"

definition registerWithKubelet :: "env \<Rightarrow> string \<Rightarrow> string \<Rightarrow> world \<Rightarrow> error option \<times> world" where
  "registerWithKubelet e name socket w =
     (case connectGRPCWithRetry e (''unix://'' @ KubeletSocket)
             (log_call LevelInfo ''Registering device plugin'' w) of
        ((conn, Some err), w1) \<Rightarrow> (Some (Errorf ''failed to connect to kubelet: '' err), w1)
      | ((conn, None), w1) \<Rightarrow>
          (case registration_Register e
                  \<lparr>Version = api_Version, ResourceName = name, Endpoint = filepath_Base socket\<rparr> w1 of
             (Some err, w2) \<Rightarrow>
               (Some (Errorf ''failed to register plugin with kubelet service: '' err),
                conn_Close conn w2)
           | (None, w2) \<Rightarrow> (None, conn_Close conn w2)))"

definition RegisterDevicePlugin :: "env \<Rightarrow> string \<Rightarrow> string \<Rightarrow> world \<Rightarrow> error option \<times> world" where
  "RegisterDevicePlugin e name socket w =
     (case waitForPluginReady e name socket w of
        (Some err, w1) \<Rightarrow> (Some (Errorf ''plugin not ready: '' err), w1)
      | (None, w1) \<Rightarrow>
          (case registerWithKubelet e name socket w1 of
             (Some err, w2) \<Rightarrow> (Some (Errorf ''registration failed: '' err), w2)
           | (None, w2) \<Rightarrow> (None, w2)))"

text \<open>Observations on a trace of the client: the \<open>Register\<close> calls and the sleeps in it.\<close>

fun is_register :: "pl_event \<Rightarrow> bool" where
  "is_register (EvRegister req) = True"
| "is_register ev = False"

definition register_calls :: "world \<Rightarrow> pl_event list" where
  "register_calls w = filter is_register (events w)"

fun sleep_of :: "pl_event \<Rightarrow> Duration option" where
  "sleep_of (EvSleep d) = Some d"
| "sleep_of ev = None"

definition sleeps :: "world \<Rightarrow> Duration list" where
  "sleeps w = List.map_filter sleep_of (events w)"

text \<open>
  Where the sleeps of a trace fall relative to the attempts of the retried operations (a
  health check or the creation of a connection): \<open>delay_groups [] tr\<close> lists, for each
  attempt in \<open>tr\<close>, the sleeps between the attempt before it (or the start) and it, and
  last the sleeps after the final attempt.
\<close>

fun delay_groups :: "Duration list \<Rightarrow> pl_event list \<Rightarrow> Duration list list" where
  "delay_groups acc [] = [acc]"
| "delay_groups acc (EvCheck name # tr) = acc # delay_groups [] tr"
| "delay_groups acc (EvNewClient target # tr) = acc # delay_groups [] tr"
| "delay_groups acc (EvSleep d # tr) = delay_groups (acc @ [d]) tr"
| "delay_groups acc (ev # tr) = delay_groups acc tr"

text \<open>What a failed attempt \<open>k\<close> of a retried call leaves in the trace.\<close>

definition failed_attempt :: "pl_event \<Rightarrow> nat \<Rightarrow> pl_event list" where
  "failed_attempt call k =
     [call, EvLogged LevelDebug ''Failure, retrying'', EvSleep (backoffDelay k)]"

text \<open>An operation that fails at every attempt and does nothing else.\<close>

definition failing_op :: "error \<Rightarrow> unit \<times> world \<Rightarrow> error option \<times> unit \<times> world" where
  "failing_op err s = (Some err, s)"

text \<open>
  An environment in which every connection is created at once, the plugin's own endpoint
  reports \<open>SERVING\<close> at the first check, and the kubelet rejects every \<open>Register\<close> call.
\<close>

definition kubelet_rejects :: env where
  "kubelet_rejects =
     \<lparr>NewClient = (\<lambda>target k. None),
      Check = (\<lambda>name k. Inr SERVING),
      Register = (\<lambda>req k. Some (External ''rpc error: code = Unavailable''))\<rparr>"

text \<open>An environment in which the plugin's own endpoint never reports \<open>SERVING\<close>.\<close>

definition never_serving :: env where
  "never_serving =
     \<lparr>NewClient = (\<lambda>target k. None),
      Check = (\<lambda>name k. Inr NOT_SERVING),
      Register = (\<lambda>req k. None)\<rparr>"

text \<open>An environment in which every call succeeds at once.\<close>

definition all_ready :: env where
  "all_ready =
     \<lparr>NewClient = (\<lambda>target k. None),
      Check = (\<lambda>name k. Inr SERVING),
      Register = (\<lambda>req k. None)\<rparr>"

subsection \<open>Panic recovery\<close>

text \<open>
  \<open>grpcRecovery(log)\<close> is the recovery handler: given the value of a panic it logs,
  increments the panic counter and returns an error (here always \<open>nil\<close>). The value of the
  panic is modelled by its text.
\<close>

definition grpcRecovery :: "string \<Rightarrow> world \<Rightarrow> error option \<times> world" where
  "grpcRecovery p w =
     (None, (log_call LevelError ''Panic recovery'' w)\<lparr>PanicCounter := PanicCounter w + 1\<rparr>)"

text \<open>
  The recovery interceptors of go-grpc-middleware that \<open>DevicePluginServer\<close> installs with
  \<open>recovery.WithRecoveryHandler(grpcRecovery(p.log))\<close>, as the library documents them:
  the interceptor calls the RPC handler; when the handler panics, the panic is recovered
  and the error of the RPC is what the recovery handler returns for the panic value (a
  unary RPC's response stays \<open>nil\<close>); otherwise the handler's own result stands. A unary
  handler returns a response and an error, a stream handler an error.
\<close>

definition UnaryServerInterceptor ::
  "(string \<Rightarrow> world \<Rightarrow> error option \<times> world) \<Rightarrow> ('r option \<times> error option) outcome \<Rightarrow> world
     \<Rightarrow> ('r option \<times> error option) outcome \<times> world" where
  "UnaryServerInterceptor recoveryHandler handled w =
     (case handled of
        Panicked p \<Rightarrow> (case recoveryHandler p w of (err, w') \<Rightarrow> (Returned (None, err), w'))
      | Returned r \<Rightarrow> (Returned r, w)
      | Blocked \<Rightarrow> (Blocked, w))"

definition StreamServerInterceptor ::
  "(string \<Rightarrow> world \<Rightarrow> error option \<times> world) \<Rightarrow> error option outcome \<Rightarrow> world
     \<Rightarrow> error option outcome \<times> world" where
  "StreamServerInterceptor recoveryHandler handled w =
     (case handled of
        Panicked p \<Rightarrow> (case recoveryHandler p w of (err, w') \<Rightarrow> (Returned err, w'))
      | Returned r \<Rightarrow> (Returned r, w)
      | Blocked \<Rightarrow> (Blocked, w))"

section \<open>Command tun-device-plugin: the shutdown coordinator\<close>

text \<open>The grace deadline: \<open>dctx\<close> is done \<open>gracePeriod\<close> after \<open>shutdown\<close> observed the cancellation.\<close>

definition gracePeriod :: Duration where "gracePeriod = 5 * Second"

text \<open>
  \<open>eg.Wait()\<close> of an \<open>errgroup\<close>: the first non-nil error returned by a task of the group,
  the results being listed in the order in which the tasks finish.
\<close>

fun eg_Wait :: "error option list \<Rightarrow> error option" where
  "eg_Wait [] = None"
| "eg_Wait (None # rs) = eg_Wait rs"
| "eg_Wait (Some err # rs) = Some err"

text \<open>
  Which case of a \<open>select\<close> between \<open><-dctx.Done()\<close> and a receive from the channel \<open>c\<close>
  fires: the context is done first (the grace deadline has expired, or the group's
  context was cancelled), or the graceful stop finishes first and its result is received.
\<close>

datatype 'a select_case = CtxDone | Received 'a

datatype sd_event =
    SdLog level string
  | GracefulStop
  | Stop
  | Shutdown
  | Close

text \<open>The task of \<open>shutdown\<close> that stops the gRPC server: its actions and its result.\<close>

definition grpc_task :: "unit select_case \<Rightarrow> sd_event list \<times> error option" where
  "grpc_task sel =
     (let started = [SdLog LevelDebug ''Shutting down gRPC server'', GracefulStop]
      in (case sel of
            CtxDone \<Rightarrow> (started @ [SdLog LevelInfo ''Forcing gRPC shutdown'', Stop], None)
          | Received u \<Rightarrow> (started, None)))"

text \<open>
  The task that stops the HTTP server. \<open>close_result\<close> is what \<open>httpServer.Close()\<close>
  returns if it is called.
\<close>

definition http_task :: "error option select_case \<Rightarrow> error option \<Rightarrow> sd_event list \<times> error option" where
  "http_task sel close_result =
     (let started = [SdLog LevelDebug ''Shutting down HTTP server'', Shutdown]
      in (case sel of
            CtxDone \<Rightarrow> (started @ [SdLog LevelInfo ''Forcing HTTP shutdown'', Close], close_result)
          | Received err \<Rightarrow> (started, err)))"

text \<open>
  \<open>shutdown\<close>. A server argument is \<open>None\<close> when the pointer is \<open>nil\<close>, otherwise it carries
  how its stop goes. \<open>cancelled\<close> says whether the lifetime context is ever done (the call
  blocks on \<open><-ctx.Done()\<close> until then); \<open>http_first\<close> says whether the HTTP task finishes
  before the gRPC task. The result is the actions of the coordinator and of the two tasks,
  and the error of \<open>eg.Wait()\<close>.
\<close>

record shutdown_result =
  coordinator_actions :: "sd_event list"
  grpc_actions :: "sd_event list"
  http_actions :: "sd_event list"
  shutdown_err :: "error option"

definition shutdown ::
  "bool \<Rightarrow> unit select_case option \<Rightarrow> (error option select_case \<times> error option) option \<Rightarrow> bool
     \<Rightarrow> shutdown_result outcome" where
  "shutdown cancelled grpcServer httpServer http_first =
     (if \<not> cancelled then Blocked
      else
        (let g = (case grpcServer of None \<Rightarrow> None | Some sel \<Rightarrow> Some (grpc_task sel));
             h = (case httpServer of None \<Rightarrow> None
                  | Some (sel, close_result) \<Rightarrow> Some (http_task sel close_result));
             gr = (case g of None \<Rightarrow> [] | Some (tr, err) \<Rightarrow> [err]);
             hr = (case h of None \<Rightarrow> [] | Some (tr, err) \<Rightarrow> [err])
         in Returned
              \<lparr>coordinator_actions = [SdLog LevelInfo ''Shutting down''],
               grpc_actions = (case g of None \<Rightarrow> [] | Some (tr, err) \<Rightarrow> tr),
               http_actions = (case h of None \<Rightarrow> [] | Some (tr, err) \<Rightarrow> tr),
               shutdown_err = eg_Wait (if http_first then hr @ gr else gr @ hr)\<rparr>))"

text \<open>
  When \<open>dctx\<close> is done. \<open>dctx\<close> is \<open>context.WithTimeout(context.Background(), gracePeriod)\<close>
  wrapped by \<open>errgroup.WithContext\<close>: it is done when the grace deadline expires, or
  earlier, when a task of the group returns a non-nil error. Times are nanoseconds
  counted from the moment \<open>shutdown\<close> observed the cancellation. A graceful stop is
  \<open>Some (t, r)\<close> when, left alone, it finishes after \<open>t\<close> with result \<open>r\<close>, and \<open>None\<close>
  when it never finishes. \<open>select_stop done_at stop tie_done\<close> is the case of the \<open>select\<close>
  that fires when \<open>dctx\<close> is done at \<open>done_at\<close>; when both cases are ready at the same
  instant Go chooses either, and \<open>tie_done\<close> says which.
\<close>

definition select_stop :: "int \<Rightarrow> (int \<times> 'a) option \<Rightarrow> bool \<Rightarrow> 'a select_case" where
  "select_stop done_at stop tie_done =
     (case stop of
        None \<Rightarrow> CtxDone
      | Some (t, r) \<Rightarrow>
          if t < done_at \<or> (t = done_at \<and> \<not> tie_done) then Received r else CtxDone)"

record stop_times =
  grpc_stops :: "(int \<times> unit) option"
  http_stops :: "(int \<times> error option) option"
  http_Close :: "error option"
  tie_done :: bool

text \<open>
  \<open>shutdown\<close> with the cases of its two \<open>select\<close>s decided by the times. Only the HTTP task
  can return an error, so for the HTTP task \<open>dctx\<close> is done at the grace deadline, and for
  the gRPC task at the grace deadline or, when the HTTP task returned an error, at the
  moment it did.
\<close>

definition shutdown_timed :: "bool \<Rightarrow> stop_times \<Rightarrow> shutdown_result outcome" where
  "shutdown_timed cancelled st =
     (let grace = sint gracePeriod;
          hsel = select_stop grace (http_stops st) (tie_done st);
          herr = snd (http_task hsel (http_Close st));
          hfin = (case hsel of
                    CtxDone \<Rightarrow> grace
                  | Received r \<Rightarrow> (case http_stops st of Some (t, r') \<Rightarrow> t | None \<Rightarrow> grace));
          dctx_done = (if herr \<noteq> None then hfin else grace);
          gsel = select_stop dctx_done (grpc_stops st) (tie_done st);
          gfin = (case gsel of
                    CtxDone \<Rightarrow> dctx_done
                  | Received u \<Rightarrow> (case grpc_stops st of Some (t, u') \<Rightarrow> t | None \<Rightarrow> dctx_done))
      in shutdown cancelled (Some gsel) (Some (hsel, http_Close st)) (hfin \<le> gfin))"

subsection \<open>\<open>run\<close> and \<open>main\<close>\<close>

text \<open>
  The four tasks \<open>run\<close> starts with \<open>eg.Go\<close>, in the order of the source.
\<close>

datatype task = ShutdownTask | RegisterTask | HttpTask | GrpcTask

text \<open>\<open>http.ErrServerClosed\<close>.\<close>

definition ErrServerClosed :: error where
  "ErrServerClosed = External ''http: Server closed''"

text \<open>
  The HTTP task: \<open>listener\<close> fails, or the task returns \<open>httpServer.Serve(lis)\<close>. net/http
  documents that \<open>Serve\<close> always returns a non-nil error, which is \<open>ErrServerClosed\<close> after
  \<open>Shutdown\<close> or \<open>Close\<close>; so what \<open>Serve\<close> returns is an \<open>error\<close>, never \<open>nil\<close>.
\<close>

definition http_server_task :: "error option \<Rightarrow> error \<Rightarrow> error option" where
  "http_server_task listener_err serve_err =
     (case listener_err of
        Some err \<Rightarrow> Some (Errorf ''failed to create http listener: '' err)
      | None \<Rightarrow> Some serve_err)"

text \<open>
  The gRPC task: \<open>listener\<close> fails, or the task returns \<open>grpcServer.Serve(lis)\<close>, which is
  \<open>nil\<close> once \<open>Stop\<close> or \<open>GracefulStop\<close> has been called.
\<close>

definition grpc_server_task :: "error option \<Rightarrow> error option \<Rightarrow> error option" where
  "grpc_server_task listener_err serve_result =
     (case listener_err of
        Some err \<Rightarrow> Some (Errorf ''failed to create grpc listener: '' err)
      | None \<Rightarrow> serve_result)"

text \<open>
  What surrounds one execution of \<open>run\<close>: whether a termination signal arrives; how the
  stops go; what \<open>RegisterDevicePlugin\<close>, the two \<open>listener\<close> calls and the two \<open>Serve\<close>
  calls return; and the order in which tasks finish (\<open>finished\<close>; a task it does not list
  finishes after the listed ones).
\<close>

record run_env =
  signalled :: bool
  stops :: stop_times
  register_result :: "error option"
  http_listener_err :: "error option"
  http_Serve :: error
  grpc_listener_err :: "error option"
  grpc_Serve :: "error option"
  finished :: "task list"

text \<open>
  The lifetime context of \<open>run\<close> is \<open>signal.NotifyContext\<close> wrapped by
  \<open>errgroup.WithContext\<close>: it is cancelled by a signal, or when a task returns an error
  of its own. A \<open>Serve\<close> call that returns anything but its after-stop result
  (\<open>ErrServerClosed\<close>, \<open>nil\<close>) has failed on its own.
\<close>

definition lifetime_cancelled :: "run_env \<Rightarrow> bool" where
  "lifetime_cancelled env =
     (signalled env \<or> register_result env \<noteq> None \<or> http_listener_err env \<noteq> None \<or>
      grpc_listener_err env \<noteq> None \<or> http_Serve env \<noteq> ErrServerClosed \<or>
      grpc_Serve env \<noteq> None)"

definition task_result :: "run_env \<Rightarrow> shutdown_result \<Rightarrow> task \<Rightarrow> error option" where
  "task_result env sd t =
     (case t of
        ShutdownTask \<Rightarrow> shutdown_err sd
      | RegisterTask \<Rightarrow> register_result env
      | HttpTask \<Rightarrow> http_server_task (http_listener_err env) (http_Serve env)
      | GrpcTask \<Rightarrow> grpc_server_task (grpc_listener_err env) (grpc_Serve env))"

definition waited :: "task list \<Rightarrow> task list" where
  "waited fin =
     fin @ filter (\<lambda>t. t \<notin> set fin) [ShutdownTask, RegisterTask, HttpTask, GrpcTask]"

text \<open>
  \<open>run\<close> returns \<open>eg.Wait()\<close>: it waits for all four tasks and returns the first non-nil
  error in the order in which they finish. The shutdown task returns only once the
  lifetime context is cancelled; until then \<open>run\<close> does not return.
\<close>

definition run :: "run_env \<Rightarrow> error option outcome" where
  "run env =
     (case shutdown_timed (lifetime_cancelled env) (stops env) of
        Returned sd \<Rightarrow> Returned (eg_Wait (map (task_result env sd) (waited (finished env))))
      | Panicked p \<Rightarrow> Panicked p
      | Blocked \<Rightarrow> Blocked)"

text \<open>
  \<open>main\<close>: when \<open>run\<close> returns an error it logs \<open>Critical failure\<close> and calls \<open>os.Exit(1)\<close>;
  when \<open>run\<close> returns \<open>nil\<close> it returns, and the process exits with status 0.
\<close>

definition main :: "run_env \<Rightarrow> nat outcome" where
  "main env =
     (case run env of
        Returned None \<Rightarrow> Returned 0
      | Returned (Some err) \<Rightarrow> Returned 1
      | Panicked p \<Rightarrow> Panicked p
      | Blocked \<Rightarrow> Blocked)"

text \<open>
  A termination signal arrives while everything runs and the kubelet registration has
  succeeded; both servers finish their graceful stop after one second.
\<close>

definition sigterm_graceful :: run_env where
  "sigterm_graceful =
     \<lparr>signalled = True,
      stops = \<lparr>grpc_stops = Some (1000000000, ()), http_stops = Some (1000000000, None),
                http_Close = None, tie_done = True\<rparr>,
      register_result = None, http_listener_err = None, http_Serve = ErrServerClosed,
      grpc_listener_err = None, grpc_Serve = None,
      finished = [RegisterTask, HttpTask, GrpcTask, ShutdownTask]\<rparr>"

text \<open>The same, with graceful stops that never finish; \<open>Close\<close> succeeds.\<close>

definition sigterm_forced :: run_env where
  "sigterm_forced =
     \<lparr>signalled = True,
      stops = \<lparr>grpc_stops = None, http_stops = None, http_Close = None, tie_done = True\<rparr>,
      register_result = None, http_listener_err = None, http_Serve = ErrServerClosed,
      grpc_listener_err = None, grpc_Serve = None,
      finished = [RegisterTask, HttpTask, GrpcTask, ShutdownTask]\<rparr>"

text \<open>The error a finished \<open>shutdown\<close> call returns.\<close>

definition shutdown_error :: "shutdown_result outcome \<Rightarrow> error option" where
  "shutdown_error out = (case out of Returned r \<Rightarrow> shutdown_err r | _ \<Rightarrow> None)"

section \<open>Device inventory\<close>

lemma discover_loop_devs:
  "i \<le> devices s \<Longrightarrow>
   discover_loop i s =
     s\<lparr>devs := devs s @ map (\<lambda>k. \<lparr>ID = device_id k, Health = Healthy\<rparr>) [i..<devices s]\<rparr>"
proof (induction i s rule: discover_loop.induct)
  case (1 i s)
  show ?case
  proof (cases "i < devices s")
    case True
    then have "discover_loop i s =
        discover_loop (i + 1) (s\<lparr>devs := devs s @ [\<lparr>ID = device_id i, Health = Healthy\<rparr>]\<rparr>)"
      by (subst discover_loop.simps) simp
    also have "\<dots> = s\<lparr>devs := (devs s @ [\<lparr>ID = device_id i, Health = Healthy\<rparr>]) @
        map (\<lambda>k. \<lparr>ID = device_id k, Health = Healthy\<rparr>) [i + 1..<devices s]\<rparr>"
      using True "1.IH" [OF True] by simp
    finally show ?thesis
      using True by (simp add: upt_conv_Cons)
  next
    case False
    with "1.prems" have "i = devices s" by simp
    then show ?thesis
      by (subst discover_loop.simps) simp
  qed
qed


lemma New_devs:
  "devs (New stat ns n) =
     (if stat tunPath = None
      then map (\<lambda>k. \<lparr>ID = device_id k, Health = Healthy\<rparr>) [0..<n] else [])"
  by (cases "stat tunPath") (simp_all add: New_def discover_def discover_loop_devs)

lemma New_fields:
  "namespace (New stat ns n) = ns \<and> devices (New stat ns n) = n"
  by (cases "stat tunPath") (simp_all add: New_def discover_def discover_loop_devs)

lemma digit_val_nth: "d < 10 \<Longrightarrow> digit_val (''0123456789'' ! d) = d"
proof -
  assume "d < 10"
  then have "d \<in> {0, 1, 2, 3, 4, 5, 6, 7, 8, 9}" by auto
  then show ?thesis by (auto simp: digit_val_def)
qed

lemma dec_val_fmt_d: "dec_val (fmt_d n) = n"
proof (induction n rule: fmt_d.induct)
  case (1 n)
  show ?case
  proof (cases "n < 10")
    case True
    then show ?thesis
      by (subst fmt_d.simps) (simp add: dec_val_def digit_val_nth)
  next
    case False
    have "dec_val (fmt_d n) = 10 * dec_val (fmt_d (n div 10)) + digit_val (''0123456789'' ! (n mod 10))"
      using False by (subst fmt_d.simps) (simp add: dec_val_def)
    also have "\<dots> = 10 * (n div 10) + n mod 10"
      using False "1.IH" by (simp add: digit_val_nth)
    finally show ?thesis by simp
  qed
qed

lemma fmt_d_examples:
  "fmt_d 0 = ''0''" "fmt_d 1 = ''1''" "fmt_d 2 = ''2''" "fmt_d 9 = ''9''"
  "fmt_d 10 = ''10''" "fmt_d 11 = ''11''" "fmt_d 255 = ''255''"
  by (simp_all add: fmt_d.simps)

lemma fmt_d_digits: "fmt_d n \<noteq> [] \<and> set (fmt_d n) \<subseteq> set ''0123456789''"
proof (induction n rule: fmt_d.induct)
  case (1 n)
  have digit: "d < 10 \<Longrightarrow> ''0123456789'' ! d \<in> set ''0123456789''" for d :: nat
    by (rule nth_mem) simp
  show ?case
  proof (cases "n < 10")
    case True
    then show ?thesis
      using digit [of n] by (subst (1 2) fmt_d.simps) simp
  next
    case False
    then show ?thesis
      using "1.IH" digit [of "n mod 10"] by (subst (1 2) fmt_d.simps) simp
  qed
qed

lemma digit_nth_zero: "d < 10 \<Longrightarrow> (''0123456789'' ! d = CHR ''0'') = (d = 0)"
proof -
  assume "d < 10"
  then have "d \<in> {0, 1, 2, 3, 4, 5, 6, 7, 8, 9}" by auto
  then show ?thesis by auto
qed

lemma fmt_d_leading: "(hd (fmt_d n) = CHR ''0'') = (n = 0)"
proof (induction n rule: fmt_d.induct)
  case (1 n)
  show ?case
  proof (cases "n < 10")
    case True
    then show ?thesis
      by (subst fmt_d.simps) (simp add: digit_nth_zero)
  next
    case False
    then have "n div 10 \<noteq> 0" by simp
    moreover have "fmt_d (n div 10) \<noteq> []" by (simp add: fmt_d_digits)
    ultimately show ?thesis
      using False "1.IH" by (subst fmt_d.simps) simp
  qed
qed

text \<open>
  C2. For every configured device count \<open>n\<close>: when the path \<open>/dev/net/tun\<close> exists at
  construction (the code's existence check, \<open>os.Stat\<close>, returns no error) the roster of
  the new server is exactly \<open>n\<close> devices, in order, all Healthy, the device at index \<open>k\<close>
  having the ID \<open>tun\<close> followed by the decimal numeral of \<open>k\<close>: a non-empty string of
  digits without a leading zero whose value is \<open>k\<close>, so the IDs are \<open>tun0\<close>, ...,
  \<open>tun(n-1)\<close> (written out for \<open>n = 3\<close> and \<open>n = 12\<close>). When the check fails, as it does
  for an absent path, the roster is empty. In both cases \<open>New\<close> returns a server with the
  configured namespace and count: the absence is logged and construction completes.
\<close>

theorem discover_roster:
  "devs (New stat ns n) =
     (if stat ''/dev/net/tun'' = None
      then map (\<lambda>k. \<lparr>ID = ''tun'' @ fmt_d k, Health = Healthy\<rparr>) [0..<n] else [])
   \<and> dec_val (fmt_d k) = k \<and> fmt_d k \<noteq> [] \<and> set (fmt_d k) \<subseteq> set ''0123456789''
   \<and> (hd (fmt_d k) = CHR ''0'') = (k = 0)
   \<and> map ID (devs (New (\<lambda>p. None) ns 3)) = [''tun0'', ''tun1'', ''tun2'']
   \<and> map ID (devs (New (\<lambda>p. None) ns 12)) =
       [''tun0'', ''tun1'', ''tun2'', ''tun3'', ''tun4'', ''tun5'', ''tun6'', ''tun7'', ''tun8'',
        ''tun9'', ''tun10'', ''tun11'']
   \<and> devs (New (\<lambda>p. Some (External ''stat /dev/net/tun: no such file or directory'')) ns n) = []
   \<and> length (devs (New stat ns n)) = (if stat ''/dev/net/tun'' = None then n else 0)
   \<and> namespace (New stat ns n) = ns \<and> devices (New stat ns n) = n
   \<and> srv_log (New stat ns n) =
       (if stat ''/dev/net/tun'' = None then [Log LevelDebug ''Discovered tun device'' None]
        else [Log LevelError ''No tun device found'' None])"
proof -
  have log: "srv_log (New stat ns n) =
       (if stat tunPath = None then [Log LevelDebug ''Discovered tun device'' None]
        else [Log LevelError ''No tun device found'' None])"
    by (cases "stat tunPath") (simp_all add: New_def discover_def discover_loop_devs)
  have path: "tunPath = ''/dev/net/tun''" by (simp add: tunPath_def)
  have three: "[0..<3] = [0, 1, 2::nat]" by (simp add: upt_rec)
  have twelve: "[0..<12] = [0, 1, 2, 3, 4, 5, 6, 7, 8, 9, 10, 11::nat]" by (simp add: upt_rec)
  have ids3: "map ID (devs (New (\<lambda>p. None) ns 3)) = [''tun0'', ''tun1'', ''tun2'']"
    by (simp add: New_devs three device_id_def tunName_def fmt_d.simps)
  have ids12: "map ID (devs (New (\<lambda>p. None) ns 12)) =
       [''tun0'', ''tun1'', ''tun2'', ''tun3'', ''tun4'', ''tun5'', ''tun6'', ''tun7'', ''tun8'',
        ''tun9'', ''tun10'', ''tun11'']"
    by (simp add: New_devs twelve device_id_def tunName_def fmt_d.simps)
  have absent: "devs (New (\<lambda>p. Some (External ''stat /dev/net/tun: no such file or directory'')) ns n) = []"
    by (simp add: New_devs)
  have general: "devs (New stat ns n) =
     (if stat ''/dev/net/tun'' = None
      then map (\<lambda>k. \<lparr>ID = ''tun'' @ fmt_d k, Health = Healthy\<rparr>) [0..<n] else [])"
    using New_devs [of stat ns n] by (simp add: device_id_def tunName_def path)
  have len: "length (devs (New stat ns n)) = (if stat ''/dev/net/tun'' = None then n else 0)"
    by (simp add: general)
  from general dec_val_fmt_d [of k] fmt_d_digits [of k] fmt_d_leading [of k] ids3 ids12 absent len
    New_fields [of stat ns n] log [unfolded path]
  show ?thesis by (intro conjI) simp_all
qed

lemma New_three_devices:
  "devs (New (\<lambda>p. None) ns 3) =
     [\<lparr>ID = ''tun0'', Health = Healthy\<rparr>, \<lparr>ID = ''tun1'', Health = Healthy\<rparr>,
      \<lparr>ID = ''tun2'', Health = Healthy\<rparr>]"
proof -
  have "[0..<3] = [0, 1, 2::nat]" by (simp add: upt_rec)
  then show ?thesis
    by (simp add: New_devs device_id_def tunName_def fmt_d.simps)
qed


section \<open>Allocation\<close>

text \<open>
  C1, as stated, at a request that names two container groups: the call returns, without
  an error, a response holding one container response, not two.
\<close>

theorem Allocate_two_groups_counterexample:
  "Allocate (New (\<lambda>p. None) ''devices.anza-labs.dev'' 3) True
      \<lparr>ContainerRequests = [\<lparr>DevicesIDs = [''tun0'']\<rparr>, \<lparr>DevicesIDs = [''tun1'']\<rparr>]\<rparr>
     = Returned (\<lparr>ContainerResponses = [\<lparr>Devices_c = [tun_spec]\<rparr>]\<rparr>, None)
   \<and> length (allocated (Allocate (New (\<lambda>p. None) ''devices.anza-labs.dev'' 3) True
        \<lparr>ContainerRequests = [\<lparr>DevicesIDs = [''tun0'']\<rparr>, \<lparr>DevicesIDs = [''tun1'']\<rparr>]\<rparr>))
     \<noteq> length (ContainerRequests
        \<lparr>ContainerRequests = [\<lparr>DevicesIDs = [''tun0'']\<rparr>, \<lparr>DevicesIDs = [''tun1'']\<rparr>]\<rparr>)"
  by (simp add: Allocate_def allocated_def)

text \<open>
  C1, amended. For every server and every request (whatever device IDs and however many
  container groups it names, none included): when a watcher receives the roster-changed
  signal the call publishes, \<open>Allocate\<close> returns no error and a response with exactly one
  container response, which grants the one fixed descriptor
  \<open>{/dev/net/tun, /dev/net/tun, rw}\<close>; when no watcher receives the signal the call does
  not return.
\<close>

theorem Allocate_single_fixed_response:
  "Allocate s True req =
     Returned (\<lparr>ContainerResponses =
        [\<lparr>Devices_c = [\<lparr>ContainerPath = ''/dev/net/tun'', HostPath = ''/dev/net/tun'',
                         Permissions = ''rw''\<rparr>]\<rparr>]\<rparr>, None)
   \<and> length (allocated (Allocate s True req)) = 1
   \<and> Allocate s False req = Blocked"
  by (simp add: Allocate_def allocated_def tun_spec_def tunPath_def rwPerm_def)

section \<open>The watch stream\<close>

lemma send_roster_sends: "lw_sends (send_roster s sr st) = lw_sends st + 1"
  by (simp add: send_roster_def lws_Send_def split: option.splits)

lemma send_roster_actions:
  "lw_actions (lw_trace (send_roster s sr st)) =
     lw_actions (lw_trace st) @ [EvSend \<lparr>Devices = devs s\<rparr>]"
  by (simp add: send_roster_def lws_Send_def lw_actions_def split: option.splits)

lemma send_roster_logs:
  "lw_logs (lw_trace (send_roster s sr st)) =
     lw_logs (lw_trace st) @
       (case sr (lw_sends st) of
          None \<Rightarrow> []
        | Some err \<Rightarrow> [Log LevelError ''Failed to send ListAndWatch response'' (Some err)])"
  by (simp add: send_roster_def lws_Send_def lw_logs_def List.map_filter_def split: option.splits)

lemma range_update_sends:
  "lw_sends (range_update s sr n st) = lw_sends st + n"
  by (induction n arbitrary: st) (simp_all add: send_roster_sends)

lemma range_update_actions:
  "lw_actions (lw_trace (range_update s sr n st)) =
     lw_actions (lw_trace st) @ concat (replicate n [EvRecv, EvSend \<lparr>Devices = devs s\<rparr>])"
proof (induction n arbitrary: st)
  case 0
  show ?case by simp
next
  case (Suc n)
  show ?case
    by (simp add: Suc.IH send_roster_actions) (simp add: lw_actions_def)
qed

text \<open>The error log calls of a run: one for each failed send, in the order of the sends.\<close>

lemma range_update_logs:
  "lw_logs (lw_trace (range_update s sr n st)) =
     lw_logs (lw_trace st) @
       map (\<lambda>err. Log LevelError ''Failed to send ListAndWatch response'' (Some err))
         (List.map_filter sr [lw_sends st..<lw_sends st + n])"
proof (induction n arbitrary: st)
  case 0
  show ?case by (simp add: List.map_filter_def)
next
  case (Suc n)
  have recv: "lw_logs (lw_trace st @ [EvRecv]) = lw_logs (lw_trace st)"
    by (simp add: lw_logs_def List.map_filter_def)
  have upt: "[lw_sends st..<Suc (lw_sends st + n)] = lw_sends st # [Suc (lw_sends st)..<Suc (lw_sends st + n)]"
    by (simp add: upt_conv_Cons del: upt_Suc)
  show ?case
    by (cases "sr (lw_sends st)")
       (simp_all add: Suc.IH send_roster_logs send_roster_sends recv upt List.map_filter_def
          del: upt_Suc)
qed

lemma ListAndWatch_state:
  "snd (ListAndWatch s sr n fin) = range_update s sr n (send_roster s sr lw_init)"
  by (cases fin) (simp_all add: ListAndWatch_def)

text \<open>
  C7. On a newly opened stream the first action of \<open>ListAndWatch\<close> is to send the roster
  snapshot \<open>devs s\<close>, before any receive from the roster-changed channel; after that, every
  receipt of the signal is followed by one send of the same snapshot, and nothing else is
  ever sent.
\<close>

theorem ListAndWatch_snapshot_first:
  "lw_actions (lw_trace (snd (ListAndWatch s send_result signals fin))) =
     EvSend \<lparr>Devices = devs s\<rparr> #
       concat (replicate signals [EvRecv, EvSend \<lparr>Devices = devs s\<rparr>])"
  by (simp add: ListAndWatch_state range_update_actions send_roster_actions)
     (simp add: lw_init_def lw_actions_def)

text \<open>
  C9. When the roster-changed channel is closed (after any number of signals, whatever the
  sends returned), \<open>ListAndWatch\<close> does not return: neither a clean end of stream
  (\<open>Returned None\<close>) nor an error result (\<open>Returned (Some err)\<close>); it ends in the panic
  \<open>unexpected error\<close> that follows the receive loop.
\<close>

theorem ListAndWatch_closed_channel_panics:
  "fst (ListAndWatch s send_result signals ChanClosed) = Panicked ''unexpected error''
   \<and> (\<forall>r. fst (ListAndWatch s send_result signals ChanClosed) \<noteq> Returned r)"
  by (simp add: ListAndWatch_def Let_def)

text \<open>
  C10. Whatever the sends on the stream return (\<open>send_result\<close> is arbitrary),
  \<open>ListAndWatch\<close> never returns a value, so never returns a send error; how it ends is
  the same as when every send succeeds; it goes on to wait for and serve every signal (it
  makes \<open>signals + 1\<close> sends, the same channel and stream actions as when every send
  succeeds); and the only effect of the failed sends is one error log call for each, in
  order, carrying the error.
\<close>

theorem ListAndWatch_send_errors_only_logged:
  "(\<forall>r. fst (ListAndWatch s send_result signals fin) \<noteq> Returned r)
   \<and> fst (ListAndWatch s send_result signals fin) = fst (ListAndWatch s (\<lambda>k. None) signals fin)
   \<and> lw_sends (snd (ListAndWatch s send_result signals fin)) = signals + 1
   \<and> lw_actions (lw_trace (snd (ListAndWatch s send_result signals fin))) =
       lw_actions (lw_trace (snd (ListAndWatch s (\<lambda>k. None) signals fin)))
   \<and> lw_logs (lw_trace (snd (ListAndWatch s send_result signals fin))) =
       map (\<lambda>err. Log LevelError ''Failed to send ListAndWatch response'' (Some err))
         (List.map_filter send_result [0..<signals + 1])"
proof -
  have out: "\<forall>r. fst (ListAndWatch s send_result signals fin) \<noteq> Returned r"
    by (cases fin) (simp_all add: ListAndWatch_def Let_def)
  have same: "fst (ListAndWatch s send_result signals fin) = fst (ListAndWatch s (\<lambda>k. None) signals fin)"
    by (cases fin) (simp_all add: ListAndWatch_def Let_def)
  have sends: "lw_sends (snd (ListAndWatch s send_result signals fin)) = signals + 1"
    by (simp add: ListAndWatch_state range_update_sends send_roster_sends lw_init_def)
  have acts: "lw_actions (lw_trace (snd (ListAndWatch s send_result signals fin))) =
       lw_actions (lw_trace (snd (ListAndWatch s (\<lambda>k. None) signals fin)))"
    by (simp add: ListAndWatch_state range_update_actions send_roster_actions)
  have upt: "[0..<signals + 1] = 0 # [1..<1 + signals]"
    by (simp add: upt_conv_Cons del: upt_Suc)
  have init: "lw_logs (lw_trace lw_init) = []" "lw_sends lw_init = 0"
    by (simp_all add: lw_init_def lw_logs_def List.map_filter_def)
  have logs: "lw_logs (lw_trace (snd (ListAndWatch s send_result signals fin))) =
       map (\<lambda>err. Log LevelError ''Failed to send ListAndWatch response'' (Some err))
         (List.map_filter send_result [0..<signals + 1])"
    unfolding ListAndWatch_state range_update_logs send_roster_logs send_roster_sends init upt
    by (cases "send_result 0") (simp_all add: List.map_filter_def)
  from out same sends acts logs show ?thesis by blast
qed

section \<open>The retry policy\<close>

lemma computedDelay_word: "computedDelay k = word_of_int (100000000 * 2 ^ k)"
  by (simp add: computedDelay_def baseDelay_def Millisecond_def push_bit_eq_mult)

lemma pow_bound: "k \<le> 36 \<Longrightarrow> (100000000::int) * 2 ^ k < 2 ^ 63"
proof -
  assume "k \<le> 36"
  then have "(2::int) ^ k \<le> 2 ^ 36" by (intro power_increasing) simp_all
  then have "(100000000::int) * 2 ^ k \<le> 100000000 * 2 ^ 36" by simp
  also have "\<dots> < 2 ^ 63" by simp
  finally show ?thesis .
qed

lemma sint_computedDelay: "k \<le> 36 \<Longrightarrow> sint (computedDelay k) = 100000000 * 2 ^ k"
proof -
  assume k: "k \<le> 36"
  have lo: "- (2 ^ 63) \<le> (100000000::int) * 2 ^ k"
    by (rule order_trans [of _ 0]) simp_all
  show ?thesis
    unfolding computedDelay_word sint_sbintrunc'
    using pow_bound [OF k] lo
    by (intro signed_take_bit_int_eq_self) simp_all
qed

lemma sint_maxDelay: "sint maxDelay = 5000000000"
  by (simp add: maxDelay_def Second_def)

lemma sint_backoffDelay: "k \<le> 36 \<Longrightarrow> sint (backoffDelay k) = min (100000000 * 2 ^ k) 5000000000"
  by (simp add: backoffDelay_def word_sless_alt sint_computedDelay sint_maxDelay min_def)

lemma retry_loop_step:
  "a < maxRetries \<Longrightarrow>
   retry_loop op a err s =
     (case op s of
        (None, s') \<Rightarrow> (None, s')
      | (Some e, (c, w)) \<Rightarrow> retry_loop op (a + 1) (Some e) (c, after_failure a w))"
  by (subst retry_loop.simps) simp

lemma retry_loop_done:
  "retry_loop op maxRetries err s = (Some (retry_error err), s)"
  by (subst retry_loop.simps) simp

text \<open>While the attempts fail, the loop is at the state \<open>attempt_state\<close> describes.\<close>

lemma retry_after_failures:
  "k \<le> maxRetries \<Longrightarrow> (\<forall>j<k. attempt_err op s j \<noteq> None) \<Longrightarrow>
   retry op s =
     retry_loop op k (if k = 0 then None else attempt_err op s (k - 1)) (attempt_state op s k)"
proof (induction k)
  case 0
  show ?case by (simp add: retry_def)
next
  case (Suc k)
  from Suc.prems have k: "k < maxRetries" and fails: "\<forall>j<k. attempt_err op s j \<noteq> None"
    and this_fails: "attempt_err op s k \<noteq> None"
    by simp_all
  from this_fails obtain e c w where op_k: "op (attempt_state op s k) = (Some e, (c, w))"
    by (cases "op (attempt_state op s k)") (auto simp: attempt_err_def)
  have "retry op s =
      retry_loop op k (if k = 0 then None else attempt_err op s (k - 1)) (attempt_state op s k)"
    using Suc.IH k fails by simp
  also have "\<dots> = retry_loop op (k + 1) (Some e) (c, after_failure k w)"
    using k op_k by (simp add: retry_loop_step)
  finally show ?case
    using op_k by (simp add: attempt_err_def)
qed

lemma retry_succeeds_at:
  assumes "k < maxRetries" "\<forall>j<k. attempt_err op s j \<noteq> None" "attempt_err op s k = None"
  shows "retry op s = (None, snd (op (attempt_state op s k)))"
proof -
  from assms(3) obtain s' where op_k: "op (attempt_state op s k) = (None, s')"
    by (cases "op (attempt_state op s k)") (auto simp: attempt_err_def)
  have "retry op s =
      retry_loop op k (if k = 0 then None else attempt_err op s (k - 1)) (attempt_state op s k)"
    using assms(1,2) by (intro retry_after_failures) simp_all
  then show ?thesis
    using assms(1) op_k by (simp add: retry_loop_step)
qed

lemma retry_exhausted:
  assumes "\<forall>j<maxRetries. attempt_err op s j \<noteq> None"
  shows "retry op s =
     (Some (retry_error (attempt_err op s (maxRetries - 1))), attempt_state op s maxRetries)"
proof -
  have "retry op s =
      retry_loop op maxRetries
        (if maxRetries = 0 then None else attempt_err op s (maxRetries - 1))
        (attempt_state op s maxRetries)"
    using assms by (intro retry_after_failures) simp_all
  then show ?thesis
    by (simp add: retry_loop_done) (simp add: maxRetries_def)
qed

lemma retry_None_iff:
  "fst (retry op s) = None \<longleftrightarrow> (\<exists>k<maxRetries. attempt_err op s k = None)"
proof
  assume "fst (retry op s) = None"
  show "\<exists>k<maxRetries. attempt_err op s k = None"
  proof (rule ccontr)
    assume "\<not> (\<exists>k<maxRetries. attempt_err op s k = None)"
    then have "\<forall>j<maxRetries. attempt_err op s j \<noteq> None" by simp
    then have "fst (retry op s) = Some (retry_error (attempt_err op s (maxRetries - 1)))"
      by (simp only: retry_exhausted fst_conv)
    with \<open>fst (retry op s) = None\<close> show False by simp
  qed
next
  assume ex: "\<exists>k<maxRetries. attempt_err op s k = None"
  define k where "k = (LEAST k. k < maxRetries \<and> attempt_err op s k = None)"
  have least: "k < maxRetries \<and> attempt_err op s k = None"
    unfolding k_def by (rule LeastI_ex [OF ex])
  have "\<forall>j<k. attempt_err op s j \<noteq> None"
  proof (intro allI impI)
    fix j assume "j < k"
    then have "\<not> (j < maxRetries \<and> attempt_err op s j = None)"
      unfolding k_def by (rule not_less_Least)
    moreover from \<open>j < k\<close> least have "j < maxRetries" by simp
    ultimately show "attempt_err op s j \<noteq> None" by simp
  qed
  with least have "retry op s = (None, snd (op (attempt_state op s k)))"
    by (intro retry_succeeds_at) simp_all
  then show "fst (retry op s) = None"
    by simp
qed

lemma attempt_state_failing_op:
  "attempt_state (failing_op err) s (Suc k) =
     (fst (attempt_state (failing_op err) s k), after_failure k (snd (attempt_state (failing_op err) s k)))"
  by (simp add: failing_op_def split: prod.splits)

lemma sleeps_after_failure: "sleeps (after_failure k w) = sleeps w @ [backoffDelay k]"
  by (simp add: sleeps_def after_failure_def time_Sleep_def log_call_def emit_def List.map_filter_def)

lemma backoffDelay_values:
  "backoffDelay 0 = 100 * Millisecond" "backoffDelay 1 = 200 * Millisecond"
  "backoffDelay 2 = 400 * Millisecond" "backoffDelay 3 = 800 * Millisecond"
  "backoffDelay 4 = 1600 * Millisecond" "backoffDelay 5 = 3200 * Millisecond"
  "computedDelay 5 = 3200 * Millisecond"
  by (simp_all add: backoffDelay_def computedDelay_def baseDelay_def maxDelay_def
        Millisecond_def Second_def word_sless_alt)

lemma failing_op_sleeps:
  "sleeps (snd (snd (retry (failing_op err) ((), world0)))) =
     [100 * Millisecond, 200 * Millisecond, 400 * Millisecond, 800 * Millisecond, 1600 * Millisecond]"
proof -
  have fails: "\<forall>j<maxRetries. attempt_err (failing_op err) ((), world0) j \<noteq> None"
    by (simp add: attempt_err_def failing_op_def)
  have five: "maxRetries = Suc (Suc (Suc (Suc (Suc 0))))"
    by (simp add: maxRetries_def)
  have s0: "sleeps world0 = []"
    by (simp add: sleeps_def world0_def List.map_filter_def)
  show ?thesis
    unfolding retry_exhausted [OF fails] snd_conv five attempt_state_failing_op sleeps_after_failure
    by (simp add: s0 backoffDelay_values [symmetric] eval_nat_numeral)
qed

lemma backoffDelay_schedule:
  "(k \<le> 36 \<longrightarrow> sint (backoffDelay k) = min (sint baseDelay * 2 ^ k) (sint maxDelay))
   \<and> sint baseDelay = 100 * 1000000 \<and> sint maxDelay = 5 * 1000000000 \<and> maxRetries = 5
   \<and> map backoffDelay [0, 1, 2, 3, 4] =
       [100 * Millisecond, 200 * Millisecond, 400 * Millisecond, 800 * Millisecond,
        1600 * Millisecond]
   \<and> sleeps (snd (snd (retry (failing_op err) ((), world0)))) =
       [100 * Millisecond, 200 * Millisecond, 400 * Millisecond, 800 * Millisecond,
        1600 * Millisecond]
   \<and> computedDelay 5 = 3200 * Millisecond \<and> backoffDelay 5 = 3200 * Millisecond
   \<and> backoffDelay j = (if maxDelay \<le>s computedDelay j then maxDelay else computedDelay j)"
proof -
  have base: "sint baseDelay = 100000000"
    by (simp add: baseDelay_def Millisecond_def)
  have clamp: "backoffDelay j = (if maxDelay \<le>s computedDelay j then maxDelay else computedDelay j)"
    by (auto simp: backoffDelay_def word_sless_alt word_sle_eq dest: signed_word_eqI)
  have one: "backoffDelay (Suc 0) = 200 * Millisecond"
    using backoffDelay_values(2) by simp
  have rest: "(k \<le> 36 \<longrightarrow> sint (backoffDelay k) = min (sint baseDelay * 2 ^ k) (sint maxDelay))
      \<and> sint baseDelay = 100 * 1000000 \<and> sint maxDelay = 5 * 1000000000 \<and> maxRetries = 5
      \<and> map backoffDelay [0, 1, 2, 3, 4] =
          [100 * Millisecond, 200 * Millisecond, 400 * Millisecond, 800 * Millisecond,
           1600 * Millisecond]
      \<and> sleeps (snd (snd (retry (failing_op err) ((), world0)))) =
          [100 * Millisecond, 200 * Millisecond, 400 * Millisecond, 800 * Millisecond,
           1600 * Millisecond]
      \<and> computedDelay 5 = 3200 * Millisecond \<and> backoffDelay 5 = 3200 * Millisecond"
    by (simp add: base sint_maxDelay sint_backoffDelay backoffDelay_values one failing_op_sleeps
          maxRetries_def)
  from rest clamp show ?thesis by blast
qed

text \<open>The first attempt index at which the product wraps.\<close>

lemma backoffDelay_37_wraps: "sint (backoffDelay 37) = - 4702848726509551616"
  by (simp add: backoffDelay_def computedDelay_def baseDelay_def maxDelay_def
        Millisecond_def Second_def word_sless_alt)

section \<open>The registration handshake\<close>

lemma retry_cases:
  obtains (success) k where "k < maxRetries" "\<forall>j<k. attempt_err op s j \<noteq> None"
      "attempt_err op s k = None" "retry op s = (None, snd (op (attempt_state op s k)))"
  | (exhausted) "\<forall>j<maxRetries. attempt_err op s j \<noteq> None"
      "retry op s =
         (Some (retry_error (attempt_err op s (maxRetries - 1))), attempt_state op s maxRetries)"
proof (cases "\<exists>k<maxRetries. attempt_err op s k = None")
  case True
  define k where "k = (LEAST k. k < maxRetries \<and> attempt_err op s k = None)"
  have least: "k < maxRetries \<and> attempt_err op s k = None"
    unfolding k_def by (rule LeastI_ex [OF True])
  have before: "\<forall>j<k. attempt_err op s j \<noteq> None"
  proof (intro allI impI)
    fix j assume "j < k"
    then have "\<not> (j < maxRetries \<and> attempt_err op s j = None)"
      unfolding k_def by (rule not_less_Least)
    moreover from \<open>j < k\<close> least have "j < maxRetries" by simp
    ultimately show "attempt_err op s j \<noteq> None" by simp
  qed
  with least have "retry op s = (None, snd (op (attempt_state op s k)))"
    by (intro retry_succeeds_at) simp_all
  with least before show ?thesis by (intro success [of k]) simp_all
next
  case False
  then have all: "\<forall>j<maxRetries. attempt_err op s j \<noteq> None" by simp
  from all retry_exhausted [OF all] show ?thesis by (rule exhausted)
qed

lemma attempt_state_invariant:
  assumes op: "\<And>s. P (snd s) \<Longrightarrow> P (snd (snd (op s)))"
    and af: "\<And>a w. P w \<Longrightarrow> P (after_failure a w)"
    and init: "P (snd s)"
  shows "P (snd (attempt_state op s k))"
proof (induction k)
  case 0
  show ?case using init by simp
next
  case (Suc k)
  from op [OF Suc.IH] have "P (snd (snd (op (attempt_state op s k))))" .
  then show ?case
    by (cases "snd (op (attempt_state op s k))") (simp add: af)
qed

lemma retry_invariant:
  assumes op: "\<And>s. P (snd s) \<Longrightarrow> P (snd (snd (op s)))"
    and af: "\<And>a w. P w \<Longrightarrow> P (after_failure a w)"
    and init: "P (snd s)"
  shows "P (snd (snd (retry op s)))"
proof (cases op s rule: retry_cases)
  case (success k)
  have "P (snd (attempt_state op s k))"
    using op af init by (rule attempt_state_invariant)
  then have "P (snd (snd (op (attempt_state op s k))))" by (rule op)
  with success(4) show ?thesis by simp
next
  case exhausted
  have "P (snd (attempt_state op s maxRetries))"
    using op af init by (rule attempt_state_invariant)
  with exhausted(2) show ?thesis by simp
qed

text \<open>The attempts of the two retried operations, in terms of the environment.\<close>

lemma connect_op_dials:
  "dials (snd (attempt_state (connect_op e t) s k)) = dials (snd s) + k"
proof (induction k)
  case 0
  show ?case by simp
next
  case (Suc k)
  then show ?case
    by (simp add: connect_op_def grpc_NewClient_def Let_def emit_def after_failure_def
          time_Sleep_def log_call_def split: prod.splits)
qed

lemma connect_op_err:
  "attempt_err (connect_op e t) s k = NewClient e t (dials (snd s) + k)"
  by (simp add: attempt_err_def connect_op_def grpc_NewClient_def Let_def connect_op_dials
        split: prod.splits)

lemma check_op_checks:
  "checks (snd (attempt_state (check_op e n) s k)) = checks (snd s) + k"
proof (induction k)
  case 0
  show ?case by simp
next
  case (Suc k)
  then show ?case
    by (simp add: check_op_def health_Check_def emit_def after_failure_def
          time_Sleep_def log_call_def split: prod.splits sum.splits)
qed

lemma check_op_err:
  "attempt_err (check_op e n) s k = None \<longleftrightarrow> Check e n (checks (snd s) + k) = Inr SERVING"
  by (simp add: attempt_err_def check_op_def health_Check_def check_op_checks
        split: prod.splits sum.splits)


text \<open>Properties of the world that every step of a retried connection or check keeps.\<close>

lemma after_failure_invariant:
  assumes emitP: "\<And>ev w. \<not> is_register ev \<Longrightarrow> P w \<Longrightarrow> P (emit ev w)"
    and "P w"
  shows "P (after_failure a w)"
  using assms(2) by (simp add: after_failure_def time_Sleep_def log_call_def emitP)

lemma connect_invariant:
  assumes emitP: "\<And>ev w. \<not> is_register ev \<Longrightarrow> P w \<Longrightarrow> P (emit ev w)"
    and dialsP: "\<And>w n. P w \<Longrightarrow> P (w\<lparr>dials := n\<rparr>)"
    and init: "P w"
  shows "P (snd (connectGRPCWithRetry e t w))"
proof -
  have "P (snd (snd (retry (connect_op e t) (None, w))))"
  proof (rule retry_invariant)
    fix s :: "ClientConn option \<times> world"
    assume "P (snd s)"
    then show "P (snd (snd (connect_op e t s)))"
      by (simp add: connect_op_def grpc_NewClient_def Let_def emitP dialsP)
  next
    fix a w' assume "P w'"
    with emitP show "P (after_failure a w')" by (rule after_failure_invariant)
  next
    show "P (snd (None :: ClientConn option, w))" using init by simp
  qed
  then show ?thesis
    by (cases "retry (connect_op e t) (None, w)") (simp add: connectGRPCWithRetry_def)
qed

lemma check_retry_invariant:
  assumes emitP: "\<And>ev w. \<not> is_register ev \<Longrightarrow> P w \<Longrightarrow> P (emit ev w)"
    and checksP: "\<And>w n. P w \<Longrightarrow> P (w\<lparr>checks := n\<rparr>)"
    and init: "P w"
  shows "P (snd (snd (retry (check_op e n) ((), w))))"
proof (rule retry_invariant)
  fix s :: "unit \<times> world"
  assume "P (snd s)"
  then show "P (snd (snd (check_op e n s)))"
    by (simp add: check_op_def health_Check_def emitP checksP split: sum.splits)
next
  fix a w' assume "P w'"
  with emitP show "P (after_failure a w')" by (rule after_failure_invariant)
next
  show "P (snd ((), w))" using init by simp
qed

lemma conn_Close_invariant:
  assumes emitP: "\<And>ev w. \<not> is_register ev \<Longrightarrow> P w \<Longrightarrow> P (emit ev w)"
    and "P w"
  shows "P (conn_Close conn w)"
  using assms(2) by (cases conn) (simp_all add: conn_Close_def emitP)

lemma waitForPluginReady_invariant:
  assumes emitP: "\<And>ev w. \<not> is_register ev \<Longrightarrow> P w \<Longrightarrow> P (emit ev w)"
    and dialsP: "\<And>w n. P w \<Longrightarrow> P (w\<lparr>dials := n\<rparr>)"
    and checksP: "\<And>w n. P w \<Longrightarrow> P (w\<lparr>checks := n\<rparr>)"
    and init: "P w"
  shows "P (snd (waitForPluginReady e n t w))"
proof -
  let ?w0 = "log_call LevelInfo ''Waiting for socket ready'' w"
  have w0: "P ?w0"
    using init by (simp add: log_call_def emitP)
  have w1: "P (snd (connectGRPCWithRetry e t ?w0))"
    using emitP dialsP w0 by (rule connect_invariant)
  have w2: "P (snd (snd (retry (check_op e n) ((), snd (connectGRPCWithRetry e t ?w0)))))"
    using emitP checksP w1 by (rule check_retry_invariant)
  have w3: "P (conn_Close conn (snd (snd (retry (check_op e n) ((), snd (connectGRPCWithRetry e t ?w0))))))"
    for conn
    using emitP w2 by (rule conn_Close_invariant)
  show ?thesis
    using w1 w3
    by (auto simp: waitForPluginReady_def split: prod.splits option.splits)
qed

lemma connect_ok_iff:
  "snd (fst (connectGRPCWithRetry e t w)) = None \<longleftrightarrow>
     (\<exists>k<maxRetries. NewClient e t (dials w + k) = None)"
proof -
  have "snd (fst (connectGRPCWithRetry e t w)) = fst (retry (connect_op e t) (None, w))"
    by (simp add: connectGRPCWithRetry_def split: prod.splits)
  then show ?thesis
    by (simp add: retry_None_iff connect_op_err)
qed

lemma check_retry_ok_iff:
  "fst (retry (check_op e n) ((), w)) = None \<longleftrightarrow>
     (\<exists>k<maxRetries. Check e n (checks w + k) = Inr SERVING)"
  by (simp add: retry_None_iff check_op_err)

lemma waitForPluginReady_ok_iff:
  "fst (waitForPluginReady e n t w) = None \<longleftrightarrow>
     (\<exists>k<maxRetries. NewClient e t (dials w + k) = None) \<and>
     (\<exists>k<maxRetries. Check e n (checks w + k) = Inr SERVING)"
proof -
  let ?w0 = "log_call LevelInfo ''Waiting for socket ready'' w"
  have d0: "dials ?w0 = dials w"
    by (simp add: log_call_def emit_def)
  have "checks (snd (connectGRPCWithRetry e t ?w0)) = checks w"
    by (rule connect_invariant) (simp_all add: emit_def log_call_def)
  then have c1: "fst (retry (check_op e n) ((), snd (connectGRPCWithRetry e t ?w0))) = None \<longleftrightarrow>
      (\<exists>k<maxRetries. Check e n (checks w + k) = Inr SERVING)"
    by (simp add: check_retry_ok_iff)
  have conn: "snd (fst (connectGRPCWithRetry e t ?w0)) = None \<longleftrightarrow>
      (\<exists>k<maxRetries. NewClient e t (dials w + k) = None)"
    by (simp add: connect_ok_iff d0)
  show ?thesis
  proof (cases "snd (fst (connectGRPCWithRetry e t ?w0))")
    case None
    with conn have ex: "\<exists>k<maxRetries. NewClient e t (dials w + k) = None" by simp
    from None have "fst (waitForPluginReady e n t w) = None \<longleftrightarrow>
        fst (retry (check_op e n) ((), snd (connectGRPCWithRetry e t ?w0))) = None"
      by (auto simp: waitForPluginReady_def split: prod.splits option.splits)
    with c1 ex show ?thesis by simp
  next
    case (Some err)
    with conn have nex: "\<not> (\<exists>k<maxRetries. NewClient e t (dials w + k) = None)" by simp
    from Some have "fst (waitForPluginReady e n t w) \<noteq> None"
      by (auto simp: waitForPluginReady_def split: prod.splits option.splits)
    with nex show ?thesis by blast
  qed
qed

lemma registerWithKubelet_ok_iff:
  "fst (registerWithKubelet e n t w) = None \<longleftrightarrow>
     (\<exists>k<maxRetries. NewClient e (''unix://'' @ KubeletSocket) (dials w + k) = None) \<and>
     Register e \<lparr>Version = api_Version, ResourceName = n, Endpoint = filepath_Base t\<rparr>
       (registers w) = None"
proof -
  let ?w0 = "log_call LevelInfo ''Registering device plugin'' w"
  let ?k = "''unix://'' @ KubeletSocket"
  have d0: "dials ?w0 = dials w"
    by (simp add: log_call_def emit_def)
  have r1: "registers (snd (connectGRPCWithRetry e ?k ?w0)) = registers w"
    by (rule connect_invariant) (simp_all add: emit_def log_call_def)
  have conn: "snd (fst (connectGRPCWithRetry e ?k ?w0)) = None \<longleftrightarrow>
      (\<exists>k<maxRetries. NewClient e ?k (dials w + k) = None)"
    by (simp add: connect_ok_iff d0)
  show ?thesis
  proof (cases "snd (fst (connectGRPCWithRetry e ?k ?w0))")
    case None
    with conn have ex: "\<exists>k<maxRetries. NewClient e ?k (dials w + k) = None" by simp
    from None r1 have "fst (registerWithKubelet e n t w) = None \<longleftrightarrow>
        Register e \<lparr>Version = api_Version, ResourceName = n, Endpoint = filepath_Base t\<rparr>
          (registers w) = None"
      by (auto simp: registerWithKubelet_def registration_Register_def
            split: prod.splits option.splits)
    with ex show ?thesis by simp
  next
    case (Some err)
    with conn have nex: "\<not> (\<exists>k<maxRetries. NewClient e ?k (dials w + k) = None)" by simp
    from Some have "fst (registerWithKubelet e n t w) \<noteq> None"
      by (auto simp: registerWithKubelet_def split: prod.splits option.splits)
    with nex show ?thesis by blast
  qed
qed

lemma RegisterDevicePlugin_ok_iff:
  "fst (RegisterDevicePlugin e n t w) = None \<longleftrightarrow>
     fst (waitForPluginReady e n t w) = None \<and>
     fst (registerWithKubelet e n t (snd (waitForPluginReady e n t w))) = None"
  by (auto simp: RegisterDevicePlugin_def split: prod.splits option.splits)

lemma retry_unfold_first:
  "retry op s =
     (case op s of
        (None, s') \<Rightarrow> (None, s')
      | (Some e, (c, w)) \<Rightarrow> retry_loop op 1 (Some e) (c, after_failure 0 w))"
  by (simp add: retry_def retry_loop_step maxRetries_def split: prod.splits option.splits)

text \<open>
  C4, as stated, in an environment where every connection is created at once, the
  plugin's endpoint reports \<open>SERVING\<close> at the first check and the kubelet rejects the
  \<open>Register\<close> call: registration fails after this single failure of its second phase,
  with no retry and no sleep, since the \<open>Register\<close> call is made once, outside \<open>retry\<close>.
\<close>

theorem registration_single_failure_counterexample:
  "fst (RegisterDevicePlugin kubelet_rejects ''devices.anza-labs.dev/tun''
          ''unix:///var/lib/kubelet/device-plugins/tun.sock'' world0)
     = Some (Errorf ''registration failed: ''
         (Errorf ''failed to register plugin with kubelet service: ''
            (External ''rpc error: code = Unavailable'')))
   \<and> events (snd (RegisterDevicePlugin kubelet_rejects ''devices.anza-labs.dev/tun''
          ''unix:///var/lib/kubelet/device-plugins/tun.sock'' world0))
     = [EvLogged LevelInfo ''Waiting for socket ready'',
        EvNewClient ''unix:///var/lib/kubelet/device-plugins/tun.sock'',
        EvCheck ''devices.anza-labs.dev/tun'',
        EvClose ''unix:///var/lib/kubelet/device-plugins/tun.sock'',
        EvLogged LevelInfo ''Registering device plugin'',
        EvNewClient ''unix:///var/lib/kubelet/device-plugins/kubelet.sock'',
        EvRegister \<lparr>Version = ''v1beta1'', ResourceName = ''devices.anza-labs.dev/tun'',
                     Endpoint = ''tun.sock''\<rparr>,
        EvClose ''unix:///var/lib/kubelet/device-plugins/kubelet.sock'']"
  by (simp add: RegisterDevicePlugin_def waitForPluginReady_def registerWithKubelet_def
        connectGRPCWithRetry_def retry_unfold_first connect_op_def check_op_def
        grpc_NewClient_def health_Check_def registration_Register_def conn_Close_def
        kubelet_rejects_def world0_def log_call_def emit_def Let_def
        KubeletSocket_def DevicePluginPath_def api_Version_def filepath_Base_def)


lemma not_ex_less: "(\<not> (\<exists>k<n::nat. P k)) = (\<forall>k<n. \<not> P k)"
  by auto

lemma waitForPluginReady_registers:
  "registers (snd (waitForPluginReady e n t w)) = registers w"
  by (rule waitForPluginReady_invariant) (simp_all add: emit_def)

text \<open>
  C4, amended. \<open>retry\<close> returns success as soon as an attempt's operation returns no
  error (it then stops in the state that attempt left, without another attempt or sleep),
  and it returns an error if and only if all 5 consecutive attempts fail.
  \<open>RegisterDevicePlugin\<close> returns an error exactly when one of its three retried
  operations fails 5 consecutive times (creating the connection to the plugin's own
  endpoint, the readiness health check, creating the connection to the kubelet) or when
  the kubelet \<open>Register\<close> call, which is made a single time without retry, fails.
\<close>

theorem retry_and_registration_failure:
  "(fst (retry op s) = None \<longleftrightarrow> (\<exists>k<5. attempt_err op s k = None))
   \<and> (\<forall>k<5. (\<forall>j<k. attempt_err op s j \<noteq> None) \<and> attempt_err op s k = None \<longrightarrow>
          retry op s = (None, snd (op (attempt_state op s k))))
   \<and> (fst (RegisterDevicePlugin e name socket w) \<noteq> None \<longleftrightarrow>
          (\<forall>k<5. NewClient e socket (dials w + k) \<noteq> None)
        \<or> (\<forall>k<5. Check e name (checks w + k) \<noteq> Inr SERVING)
        \<or> (\<forall>k<5. NewClient e (''unix://'' @ KubeletSocket)
                     (dials (snd (waitForPluginReady e name socket w)) + k) \<noteq> None)
        \<or> Register e \<lparr>Version = api_Version, ResourceName = name,
                         Endpoint = filepath_Base socket\<rparr> (registers w) \<noteq> None)"
proof -
  have five: "maxRetries = 5" by (simp add: maxRetries_def)
  have a: "fst (retry op s) = None \<longleftrightarrow> (\<exists>k<5. attempt_err op s k = None)"
    using retry_None_iff [of op s] by (simp only: five)
  have b: "\<forall>k<5. (\<forall>j<k. attempt_err op s j \<noteq> None) \<and> attempt_err op s k = None \<longrightarrow>
      retry op s = (None, snd (op (attempt_state op s k)))"
    using retry_succeeds_at [of _ op s] by (simp only: five) blast
  have c: "fst (RegisterDevicePlugin e name socket w) = None \<longleftrightarrow>
          (\<exists>k<5. NewClient e socket (dials w + k) = None)
        \<and> (\<exists>k<5. Check e name (checks w + k) = Inr SERVING)
        \<and> (\<exists>k<5. NewClient e (''unix://'' @ KubeletSocket)
                     (dials (snd (waitForPluginReady e name socket w)) + k) = None)
        \<and> Register e \<lparr>Version = api_Version, ResourceName = name,
                         Endpoint = filepath_Base socket\<rparr> (registers w) = None"
    unfolding RegisterDevicePlugin_ok_iff waitForPluginReady_ok_iff registerWithKubelet_ok_iff
      waitForPluginReady_registers five
    by blast
  have d: "fst (RegisterDevicePlugin e name socket w) \<noteq> None \<longleftrightarrow>
          (\<forall>k<5. NewClient e socket (dials w + k) \<noteq> None)
        \<or> (\<forall>k<5. Check e name (checks w + k) \<noteq> Inr SERVING)
        \<or> (\<forall>k<5. NewClient e (''unix://'' @ KubeletSocket)
                     (dials (snd (waitForPluginReady e name socket w)) + k) \<noteq> None)
        \<or> Register e \<lparr>Version = api_Version, ResourceName = name,
                         Endpoint = filepath_Base socket\<rparr> (registers w) \<noteq> None"
    unfolding c de_Morgan_conj not_ex_less ..
  from a b d show ?thesis by (intro conjI)
qed

text \<open>
  The three parts at concrete inputs: an operation that always fails, a health check that
  succeeds at its first attempt, and an endpoint that never reports \<open>SERVING\<close>.
\<close>

theorem retry_and_registration_failure_witness:
  "fst (retry (failing_op (External ''connection refused'')) ((), world0)) \<noteq> None
   \<and> retry (check_op all_ready ''devices.anza-labs.dev/tun'') ((), world0)
       = (None, (), world0\<lparr>checks := 1, events := [EvCheck ''devices.anza-labs.dev/tun'']\<rparr>)
   \<and> fst (RegisterDevicePlugin never_serving ''devices.anza-labs.dev/tun''
             ''unix:///var/lib/kubelet/device-plugins/tun.sock'' world0) \<noteq> None"
proof -
  note thm1 = retry_and_registration_failure
    [of "failing_op (External ''connection refused'')" "((), world0)"
        never_serving "''devices.anza-labs.dev/tun''"
        "''unix:///var/lib/kubelet/device-plugins/tun.sock''" world0]
  note thm2 = retry_and_registration_failure
    [of "check_op all_ready ''devices.anza-labs.dev/tun''" "((), world0)"
        never_serving "''devices.anza-labs.dev/tun''"
        "''unix:///var/lib/kubelet/device-plugins/tun.sock''" world0]
  have "\<not> (\<exists>k<5. attempt_err (failing_op (External ''connection refused'')) ((), world0) k = None)"
    by (simp add: attempt_err_def failing_op_def)
  with thm1 have first: "fst (retry (failing_op (External ''connection refused'')) ((), world0)) \<noteq> None"
    by blast
  have zero: "(\<forall>j<0::nat. attempt_err (check_op all_ready ''devices.anza-labs.dev/tun'') ((), world0) j \<noteq> None)
      \<and> attempt_err (check_op all_ready ''devices.anza-labs.dev/tun'') ((), world0) 0 = None"
    by (simp add: attempt_err_def check_op_def health_Check_def all_ready_def)
  from thm2 have "\<forall>k<5. (\<forall>j<k. attempt_err (check_op all_ready ''devices.anza-labs.dev/tun'') ((), world0) j \<noteq> None)
        \<and> attempt_err (check_op all_ready ''devices.anza-labs.dev/tun'') ((), world0) k = None \<longrightarrow>
      retry (check_op all_ready ''devices.anza-labs.dev/tun'') ((), world0)
        = (None, snd (check_op all_ready ''devices.anza-labs.dev/tun''
             (attempt_state (check_op all_ready ''devices.anza-labs.dev/tun'') ((), world0) k)))"
    by (rule conjunct2 [THEN conjunct1])
  with zero have "retry (check_op all_ready ''devices.anza-labs.dev/tun'') ((), world0)
        = (None, snd (check_op all_ready ''devices.anza-labs.dev/tun''
             (attempt_state (check_op all_ready ''devices.anza-labs.dev/tun'') ((), world0) 0)))"
    by (metis zero_less_numeral)
  then have second: "retry (check_op all_ready ''devices.anza-labs.dev/tun'') ((), world0)
       = (None, (), world0\<lparr>checks := 1, events := [EvCheck ''devices.anza-labs.dev/tun'']\<rparr>)"
    by (simp add: check_op_def health_Check_def all_ready_def emit_def world0_def)
  have "\<forall>k<5. Check never_serving ''devices.anza-labs.dev/tun'' (checks world0 + k) \<noteq> Inr SERVING"
    by (simp add: never_serving_def)
  with thm1 have third: "fst (RegisterDevicePlugin never_serving ''devices.anza-labs.dev/tun''
             ''unix:///var/lib/kubelet/device-plugins/tun.sock'' world0) \<noteq> None"
    by blast
  from first second third show ?thesis by (intro conjI)
qed

lemma register_calls_emit:
  "\<not> is_register ev \<Longrightarrow> register_calls (emit ev w) = register_calls w"
  by (simp add: register_calls_def emit_def)

lemma waitForPluginReady_register_calls:
  "register_calls (snd (waitForPluginReady e n t w)) = register_calls w"
  by (rule waitForPluginReady_invariant) (simp_all add: register_calls_emit, simp_all add: register_calls_def)

lemma registerWithKubelet_extends:
  "prefix (events w) (events (snd (registerWithKubelet e n t w)))"
proof -
  let ?P = "\<lambda>w'. prefix (events w) (events w')"
  let ?w0 = "log_call LevelInfo ''Registering device plugin'' w"
  have emitP: "\<And>ev w'. ?P w' \<Longrightarrow> ?P (emit ev w')"
    by (simp add: emit_def)
  have w0: "?P ?w0"
    by (simp add: log_call_def emit_def)
  have w1: "?P (snd (connectGRPCWithRetry e (''unix://'' @ KubeletSocket) ?w0))"
    using w0 by (intro connect_invariant [where P = ?P]) (simp_all add: emitP)
  have w2: "?P (conn_Close conn (snd (registration_Register e req
        (snd (connectGRPCWithRetry e (''unix://'' @ KubeletSocket) ?w0)))))" for conn req
  proof (rule conn_Close_invariant [where P = ?P])
    show "?P (snd (registration_Register e req
        (snd (connectGRPCWithRetry e (''unix://'' @ KubeletSocket) ?w0))))"
      using w1 by (simp add: registration_Register_def emit_def)
  qed (simp add: emitP)
  obtain conn err w1' where c:
    "connectGRPCWithRetry e (''unix://'' @ KubeletSocket) ?w0 = ((conn, err), w1')"
    by (metis prod.exhaust)
  obtain r w2' where reg:
    "registration_Register e
       \<lparr>Version = api_Version, ResourceName = n, Endpoint = filepath_Base t\<rparr> w1' = (r, w2')"
    by (metis prod.exhaust)
  from w1 c have p1: "prefix (events w) (events w1')" by simp
  from w2 [of conn "\<lparr>Version = api_Version, ResourceName = n, Endpoint = filepath_Base t\<rparr>"] c reg
  have p2: "prefix (events w) (events (conn_Close conn w2'))" by simp
  show ?thesis
    using p1 p2 c reg
    by (simp add: registerWithKubelet_def split: option.splits)
qed

text \<open>
  C5. The readiness wait itself makes no \<open>Register\<close> call, and everything
  \<open>RegisterDevicePlugin\<close> does comes after the events of the wait. When the wait fails,
  \<open>RegisterDevicePlugin\<close> returns the readiness error (wrapped as \<open>plugin not ready\<close>) and
  stops in the world the wait left: no \<open>Register\<close> call is attempted. When the wait
  succeeds, what follows is \<open>registerWithKubelet\<close> run from the world the wait left.
\<close>

theorem registration_only_after_readiness:
  "register_calls (snd (waitForPluginReady e name socket w)) = register_calls w
   \<and> prefix (events (snd (waitForPluginReady e name socket w)))
       (events (snd (RegisterDevicePlugin e name socket w)))
   \<and> (case fst (waitForPluginReady e name socket w) of
        Some err \<Rightarrow>
          RegisterDevicePlugin e name socket w =
            (Some (Errorf ''plugin not ready: '' err), snd (waitForPluginReady e name socket w))
          \<and> register_calls (snd (RegisterDevicePlugin e name socket w)) = register_calls w
      | None \<Rightarrow>
          snd (RegisterDevicePlugin e name socket w) =
            snd (registerWithKubelet e name socket (snd (waitForPluginReady e name socket w))))"
proof (cases "waitForPluginReady e name socket w")
  case (Pair r w1)
  have rc: "register_calls w1 = register_calls w"
    using waitForPluginReady_register_calls [of e name socket w] Pair by simp
  show ?thesis
  proof (cases r)
    case None
    have "prefix (events w1) (events (snd (registerWithKubelet e name socket w1)))"
      by (rule registerWithKubelet_extends)
    with None Pair rc show ?thesis
      by (cases "registerWithKubelet e name socket w1")
         (auto simp: RegisterDevicePlugin_def split: option.splits)
  next
    case (Some err)
    with Pair rc show ?thesis
      by (simp add: RegisterDevicePlugin_def)
  qed
qed

lemma backoffDelay_Suc_values:
  "backoffDelay (Suc 0) = 200 * Millisecond"
  "backoffDelay (Suc (Suc 0)) = 400 * Millisecond"
  "backoffDelay (Suc (Suc (Suc 0))) = 800 * Millisecond"
  "backoffDelay (Suc (Suc (Suc (Suc 0)))) = 1600 * Millisecond"
  using backoffDelay_values by (simp_all add: eval_nat_numeral)

text \<open>A run in which the endpoint never reports \<open>SERVING\<close>: five checks, no \<open>Register\<close> call.\<close>

lemma never_serving_run:
  "fst (RegisterDevicePlugin never_serving ''devices.anza-labs.dev/tun''
          ''unix:///var/lib/kubelet/device-plugins/tun.sock'' world0)
     = Some (Errorf ''plugin not ready: ''
         (Errorf ''failed to check health of the service: ''
            (Errorf ''failed to create connection to local gRPC server after 5 attempts: ''
               (Message ''invalid status: NOT_SERVING''))))
   \<and> events (snd (RegisterDevicePlugin never_serving ''devices.anza-labs.dev/tun''
          ''unix:///var/lib/kubelet/device-plugins/tun.sock'' world0))
     = [EvLogged LevelInfo ''Waiting for socket ready'',
        EvNewClient ''unix:///var/lib/kubelet/device-plugins/tun.sock'',
        EvCheck ''devices.anza-labs.dev/tun'',
        EvLogged LevelDebug ''Failure, retrying'', EvSleep (100 * Millisecond),
        EvCheck ''devices.anza-labs.dev/tun'',
        EvLogged LevelDebug ''Failure, retrying'', EvSleep (200 * Millisecond),
        EvCheck ''devices.anza-labs.dev/tun'',
        EvLogged LevelDebug ''Failure, retrying'', EvSleep (400 * Millisecond),
        EvCheck ''devices.anza-labs.dev/tun'',
        EvLogged LevelDebug ''Failure, retrying'', EvSleep (800 * Millisecond),
        EvCheck ''devices.anza-labs.dev/tun'',
        EvLogged LevelDebug ''Failure, retrying'', EvSleep (1600 * Millisecond),
        EvClose ''unix:///var/lib/kubelet/device-plugins/tun.sock'']"
  by (simp add: RegisterDevicePlugin_def waitForPluginReady_def 
        connectGRPCWithRetry_def retry_def retry_loop.simps maxRetries_def connect_op_def check_op_def
        grpc_NewClient_def health_Check_def conn_Close_def after_failure_def time_Sleep_def
        never_serving_def world0_def log_call_def emit_def Let_def retry_error_def
        backoffDelay_values backoffDelay_Suc_values)

section \<open>Where the delays fall\<close>

lemma check_op_events:
  "events (snd (snd (check_op e n s))) = events (snd s) @ [EvCheck n]"
  by (simp add: check_op_def health_Check_def emit_def split: sum.splits)

lemma connect_op_events:
  "events (snd (snd (connect_op e t s))) = events (snd s) @ [EvNewClient t]"
  by (simp add: connect_op_def grpc_NewClient_def Let_def emit_def)

lemma after_failure_events:
  "events (after_failure k w) = events w @ [EvLogged LevelDebug ''Failure, retrying'', EvSleep (backoffDelay k)]"
  by (simp add: after_failure_def time_Sleep_def log_call_def emit_def)

lemma attempt_state_events:
  assumes op: "\<And>s. events (snd (snd (op s))) = events (snd s) @ [call]"
  shows "events (snd (attempt_state op s k)) =
     events (snd s) @ concat (map (failed_attempt call) [0..<k])"
proof (induction k)
  case 0
  show ?case by simp
next
  case (Suc k)
  obtain c w where st: "snd (op (attempt_state op s k)) = (c, w)"
    by (cases "snd (op (attempt_state op s k))") auto
  then have "events w = events (snd (attempt_state op s k)) @ [call]"
    using op [of "attempt_state op s k"] by simp
  with st Suc.IH show ?case
    by (simp add: after_failure_events failed_attempt_def)
qed

lemma retry_events:
  assumes op: "\<And>s. events (snd (snd (op s))) = events (snd s) @ [call]"
    and m: "m \<le> maxRetries" and fails: "\<forall>j<m. attempt_err op s j \<noteq> None"
    and ok: "m < maxRetries \<longrightarrow> attempt_err op s m = None"
  shows "events (snd (snd (retry op s))) =
     events (snd s) @ concat (map (failed_attempt call) [0..<m]) @
       (if m < maxRetries then [call] else [])"
proof (cases "m < maxRetries")
  case True
  with ok have "attempt_err op s m = None" by simp
  with True fails have "retry op s = (None, snd (op (attempt_state op s m)))"
    by (intro retry_succeeds_at) simp_all
  then show ?thesis
    using True op [of "attempt_state op s m"] attempt_state_events [of op call s m, OF op]
    by simp
next
  case False
  with m have eq: "m = maxRetries" by simp
  with fails have "\<forall>j<maxRetries. attempt_err op s j \<noteq> None" by simp
  from retry_exhausted [OF this] show ?thesis
    using attempt_state_events [of op call s maxRetries, OF op] eq by simp
qed

lemma check_retry_events:
  assumes "m \<le> 5" "\<forall>j<m. Check e name (checks w + j) \<noteq> Inr SERVING"
    "m < 5 \<longrightarrow> Check e name (checks w + m) = Inr SERVING"
  shows "events (snd (snd (retry (check_op e name) ((), w)))) =
     events w @ concat (map (failed_attempt (EvCheck name)) [0..<m]) @
       (if m < 5 then [EvCheck name] else [])"
proof -
  have "events (snd (snd (retry (check_op e name) ((), w)))) =
     events (snd ((), w)) @ concat (map (failed_attempt (EvCheck name)) [0..<m]) @
       (if m < maxRetries then [EvCheck name] else [])"
    using assms
    by (intro retry_events) (simp_all add: check_op_events check_op_err maxRetries_def)
  then show ?thesis by (simp add: maxRetries_def)
qed

lemma connect_retry_events:
  assumes "m \<le> 5" "\<forall>j<m. NewClient e target (dials w + j) \<noteq> None"
    "m < 5 \<longrightarrow> NewClient e target (dials w + m) = None"
  shows "events (snd (connectGRPCWithRetry e target w)) =
     events w @ concat (map (failed_attempt (EvNewClient target)) [0..<m]) @
       (if m < 5 then [EvNewClient target] else [])"
proof -
  have "events (snd (snd (retry (connect_op e target) (None, w)))) =
     events (snd (None :: ClientConn option, w)) @
       concat (map (failed_attempt (EvNewClient target)) [0..<m]) @
       (if m < maxRetries then [EvNewClient target] else [])"
    using assms
    by (intro retry_events) (simp_all add: connect_op_events connect_op_err maxRetries_def)
  then show ?thesis
    by (cases "retry (connect_op e target) (None, w)")
       (simp add: maxRetries_def connectGRPCWithRetry_def)
qed

lemma upt_5: "[0..<5] = [0, 1, 2, 3, 4::nat]"
  by (simp add: upt_rec)

lemma never_serving_check_events:
  "events (snd (snd (retry (check_op never_serving ''devices.anza-labs.dev/tun'') ((), world0)))) =
     [EvCheck ''devices.anza-labs.dev/tun'',
      EvLogged LevelDebug ''Failure, retrying'', EvSleep (100 * Millisecond),
      EvCheck ''devices.anza-labs.dev/tun'',
      EvLogged LevelDebug ''Failure, retrying'', EvSleep (200 * Millisecond),
      EvCheck ''devices.anza-labs.dev/tun'',
      EvLogged LevelDebug ''Failure, retrying'', EvSleep (400 * Millisecond),
      EvCheck ''devices.anza-labs.dev/tun'',
      EvLogged LevelDebug ''Failure, retrying'', EvSleep (800 * Millisecond),
      EvCheck ''devices.anza-labs.dev/tun'',
      EvLogged LevelDebug ''Failure, retrying'', EvSleep (1600 * Millisecond)]"
proof -
  have "events (snd (snd (retry (check_op never_serving ''devices.anza-labs.dev/tun'') ((), world0)))) =
     events world0 @ concat (map (failed_attempt (EvCheck ''devices.anza-labs.dev/tun'')) [0..<5]) @
       (if (5::nat) < 5 then [EvCheck ''devices.anza-labs.dev/tun''] else [])"
    by (rule check_retry_events) (simp_all add: never_serving_def)
  then show ?thesis
    by (simp add: upt_5 failed_attempt_def world0_def backoffDelay_values backoffDelay_Suc_values)
qed

lemma all_ready_check_events:
  "events (snd (snd (retry (check_op all_ready ''devices.anza-labs.dev/tun'') ((), world0)))) =
     [EvCheck ''devices.anza-labs.dev/tun'']"
proof -
  have "events (snd (snd (retry (check_op all_ready ''devices.anza-labs.dev/tun'') ((), world0)))) =
     events world0 @ concat (map (failed_attempt (EvCheck ''devices.anza-labs.dev/tun'')) [0..<0]) @
       (if (0::nat) < 5 then [EvCheck ''devices.anza-labs.dev/tun''] else [])"
    by (rule check_retry_events) (simp_all add: all_ready_def)
  then show ?thesis
    by (simp add: world0_def)
qed

text \<open>
  C3, as stated, at a run of the readiness check in which all five attempts fail: no
  delay precedes attempt 0 (the claim has 100ms there), the delay before attempt 1 is
  100ms (the claim has 200ms), and 1600ms is slept after the last attempt. A check that
  succeeds at once is preceded and followed by no delay at all.
\<close>

theorem retry_delay_position_counterexample:
  "delay_groups []
     (events (snd (snd (retry (check_op never_serving ''devices.anza-labs.dev/tun'') ((), world0)))))
     = [[], [100 * Millisecond], [200 * Millisecond], [400 * Millisecond], [800 * Millisecond],
        [1600 * Millisecond]]
   \<and> delay_groups []
       (events (snd (snd (retry (check_op never_serving ''devices.anza-labs.dev/tun'') ((), world0))))) ! 0
     \<noteq> [backoffDelay 0]
   \<and> delay_groups []
       (events (snd (snd (retry (check_op never_serving ''devices.anza-labs.dev/tun'') ((), world0))))) ! 1
     \<noteq> [backoffDelay 1]
   \<and> backoffDelay 0 = 100 * Millisecond \<and> backoffDelay 1 = 200 * Millisecond
   \<and> delay_groups []
       (events (snd (snd (retry (check_op all_ready ''devices.anza-labs.dev/tun'') ((), world0)))))
     = [[], []]"
proof -
  have ms: "(100 * Millisecond :: Duration) \<noteq> 200 * Millisecond"
    by (simp add: Millisecond_def)
  show ?thesis
    unfolding never_serving_check_events all_ready_check_events
    using ms by (simp add: backoffDelay_values backoffDelay_Suc_values)
qed

text \<open>
  C3, amended. With \<open>baseDelay\<close> = 100ms, \<open>maxDelay\<close> = 5s and \<open>maxRetries\<close> = 5 (durations in
  nanoseconds), \<open>retry\<close> sleeps only after a failed attempt. In both uses of \<open>retry\<close>, the
  readiness check and the creation of a connection, a run whose first \<open>m\<close> attempts fail
  is: attempt 0 with no delay before it; after each failed attempt \<open>k\<close> a sleep of
  \<open>backoffDelay k\<close>, which is \<open>min (baseDelay * 2 ^ k) maxDelay\<close> (for every \<open>k\<close> up to 36; from
  37 on the 64-bit product wraps); then the next attempt, or, after the fifth failure, the
  return of the error. The delays after the failed attempts 0..4 are 100ms, 200ms,
  400ms, 800ms, 1600ms; a sixth attempt (\<open>k = 5\<close>) would compute 3200ms, still under the
  cap; and whenever the computed delay is at least 5s the delay slept is exactly 5s.
\<close>

theorem retry_delay_after_failed_attempt:
  "(k \<le> 36 \<longrightarrow> sint (backoffDelay k) = min (sint baseDelay * 2 ^ k) (sint maxDelay))
   \<and> sint baseDelay = 100 * 1000000 \<and> sint maxDelay = 5 * 1000000000 \<and> maxRetries = 5
   \<and> (m \<le> 5 \<and> (\<forall>j<m. Check e name (checks w + j) \<noteq> Inr SERVING)
          \<and> (m < 5 \<longrightarrow> Check e name (checks w + m) = Inr SERVING) \<longrightarrow>
        events (snd (snd (retry (check_op e name) ((), w)))) =
          events w @
          concat (map (\<lambda>k. [EvCheck name, EvLogged LevelDebug ''Failure, retrying'',
                              EvSleep (backoffDelay k)]) [0..<m]) @
          (if m < 5 then [EvCheck name] else []))
   \<and> (m \<le> 5 \<and> (\<forall>j<m. NewClient e target (dials w + j) \<noteq> None)
          \<and> (m < 5 \<longrightarrow> NewClient e target (dials w + m) = None) \<longrightarrow>
        events (snd (connectGRPCWithRetry e target w)) =
          events w @
          concat (map (\<lambda>k. [EvNewClient target, EvLogged LevelDebug ''Failure, retrying'',
                              EvSleep (backoffDelay k)]) [0..<m]) @
          (if m < 5 then [EvNewClient target] else []))
   \<and> map backoffDelay [0, 1, 2, 3, 4] =
       [100 * Millisecond, 200 * Millisecond, 400 * Millisecond, 800 * Millisecond,
        1600 * Millisecond]
   \<and> computedDelay 5 = 3200 * Millisecond \<and> backoffDelay 5 = 3200 * Millisecond
   \<and> backoffDelay j = (if maxDelay \<le>s computedDelay j then maxDelay else computedDelay j)"
proof -
  have fa: "failed_attempt call = (\<lambda>k. [call, EvLogged LevelDebug ''Failure, retrying'',
      EvSleep (backoffDelay k)])" for call
    by (rule ext) (simp add: failed_attempt_def)
  have checks: "m \<le> 5 \<and> (\<forall>j<m. Check e name (checks w + j) \<noteq> Inr SERVING)
          \<and> (m < 5 \<longrightarrow> Check e name (checks w + m) = Inr SERVING) \<longrightarrow>
        events (snd (snd (retry (check_op e name) ((), w)))) =
          events w @
          concat (map (\<lambda>k. [EvCheck name, EvLogged LevelDebug ''Failure, retrying'',
                              EvSleep (backoffDelay k)]) [0..<m]) @
          (if m < 5 then [EvCheck name] else [])"
    using check_retry_events [of m e name w] unfolding fa by (intro impI) simp
  have conns: "m \<le> 5 \<and> (\<forall>j<m. NewClient e target (dials w + j) \<noteq> None)
          \<and> (m < 5 \<longrightarrow> NewClient e target (dials w + m) = None) \<longrightarrow>
        events (snd (connectGRPCWithRetry e target w)) =
          events w @
          concat (map (\<lambda>k. [EvNewClient target, EvLogged LevelDebug ''Failure, retrying'',
                              EvSleep (backoffDelay k)]) [0..<m]) @
          (if m < 5 then [EvNewClient target] else [])"
    using connect_retry_events [of m e target w] unfolding fa by (intro impI) simp
  have base: "sint baseDelay = 100000000"
    by (simp add: baseDelay_def Millisecond_def)
  have one: "backoffDelay (Suc 0) = 200 * Millisecond"
    using backoffDelay_values(2) by simp
  have vals: "k \<le> 36 \<longrightarrow> sint (backoffDelay k) = min (sint baseDelay * 2 ^ k) (sint maxDelay)"
    "sint baseDelay = 100 * 1000000" "sint maxDelay = 5 * 1000000000" "maxRetries = 5"
    "map backoffDelay [0, 1, 2, 3, 4] =
       [100 * Millisecond, 200 * Millisecond, 400 * Millisecond, 800 * Millisecond,
        1600 * Millisecond]"
    "computedDelay 5 = 3200 * Millisecond" "backoffDelay 5 = 3200 * Millisecond"
    by (simp_all add: base sint_maxDelay sint_backoffDelay backoffDelay_values one maxRetries_def)
  have clamp: "backoffDelay j = (if maxDelay \<le>s computedDelay j then maxDelay else computedDelay j)"
    by (auto simp: backoffDelay_def word_sless_alt word_sle_eq dest: signed_word_eqI)
  from vals checks conns clamp show ?thesis by (intro conjI)
qed

text \<open>
  At \<open>k = 6\<close> the delay is the cap; five failed readiness checks give the full schedule;
  a connection created at the first attempt gives a trace without any sleep.
\<close>

theorem retry_delay_after_failed_attempt_witness:
  "sint (backoffDelay 6) = 5000000000
   \<and> events (snd (snd (retry (check_op never_serving ''devices.anza-labs.dev/tun'') ((), world0)))) =
     [EvCheck ''devices.anza-labs.dev/tun'',
      EvLogged LevelDebug ''Failure, retrying'', EvSleep (100 * Millisecond),
      EvCheck ''devices.anza-labs.dev/tun'',
      EvLogged LevelDebug ''Failure, retrying'', EvSleep (200 * Millisecond),
      EvCheck ''devices.anza-labs.dev/tun'',
      EvLogged LevelDebug ''Failure, retrying'', EvSleep (400 * Millisecond),
      EvCheck ''devices.anza-labs.dev/tun'',
      EvLogged LevelDebug ''Failure, retrying'', EvSleep (800 * Millisecond),
      EvCheck ''devices.anza-labs.dev/tun'',
      EvLogged LevelDebug ''Failure, retrying'', EvSleep (1600 * Millisecond)]
   \<and> events (snd (connectGRPCWithRetry all_ready
         ''unix:///var/lib/kubelet/device-plugins/tun.sock'' world0)) =
     [EvNewClient ''unix:///var/lib/kubelet/device-plugins/tun.sock'']"
proof -
  note failing = retry_delay_after_failed_attempt
    [where k = 6 and m = 5 and e = never_serving and name = "''devices.anza-labs.dev/tun''"
       and w = world0]
  note ready = retry_delay_after_failed_attempt
    [where k = 6 and m = 0 and e = all_ready
       and target = "''unix:///var/lib/kubelet/device-plugins/tun.sock''" and w = world0]
  have "6 \<le> (36::nat) \<longrightarrow> sint (backoffDelay 6) = min (sint baseDelay * 2 ^ 6) (sint maxDelay)"
    by (rule failing [THEN conjunct1])
  moreover have "sint baseDelay = 100000000" "sint maxDelay = 5000000000"
    by (simp_all add: baseDelay_def maxDelay_def Millisecond_def Second_def)
  ultimately have six: "sint (backoffDelay 6) = 5000000000"
    by simp
  have hyp5: "(5::nat) \<le> 5 \<and> (\<forall>j<5. Check never_serving ''devices.anza-labs.dev/tun'' (checks world0 + j) \<noteq> Inr SERVING)
      \<and> ((5::nat) < 5 \<longrightarrow> Check never_serving ''devices.anza-labs.dev/tun'' (checks world0 + 5) = Inr SERVING)"
    by (simp add: never_serving_def)
  from failing [THEN conjunct2, THEN conjunct2, THEN conjunct2, THEN conjunct2, THEN conjunct1,
      THEN mp, OF hyp5]
  have "events (snd (snd (retry (check_op never_serving ''devices.anza-labs.dev/tun'') ((), world0)))) =
          events world0 @
          concat (map (\<lambda>k. [EvCheck ''devices.anza-labs.dev/tun'', EvLogged LevelDebug ''Failure, retrying'',
                              EvSleep (backoffDelay k)]) [0..<5]) @
          (if (5::nat) < 5 then [EvCheck ''devices.anza-labs.dev/tun''] else [])" .
  then have trace: "events (snd (snd (retry (check_op never_serving ''devices.anza-labs.dev/tun'') ((), world0)))) =
     [EvCheck ''devices.anza-labs.dev/tun'',
      EvLogged LevelDebug ''Failure, retrying'', EvSleep (100 * Millisecond),
      EvCheck ''devices.anza-labs.dev/tun'',
      EvLogged LevelDebug ''Failure, retrying'', EvSleep (200 * Millisecond),
      EvCheck ''devices.anza-labs.dev/tun'',
      EvLogged LevelDebug ''Failure, retrying'', EvSleep (400 * Millisecond),
      EvCheck ''devices.anza-labs.dev/tun'',
      EvLogged LevelDebug ''Failure, retrying'', EvSleep (800 * Millisecond),
      EvCheck ''devices.anza-labs.dev/tun'',
      EvLogged LevelDebug ''Failure, retrying'', EvSleep (1600 * Millisecond)]"
    by (simp add: upt_5 world0_def backoffDelay_values backoffDelay_Suc_values)
  have hyp0: "(0::nat) \<le> 5 \<and> (\<forall>j<0. NewClient all_ready ''unix:///var/lib/kubelet/device-plugins/tun.sock'' (dials world0 + j) \<noteq> None)
      \<and> ((0::nat) < 5 \<longrightarrow> NewClient all_ready ''unix:///var/lib/kubelet/device-plugins/tun.sock'' (dials world0 + 0) = None)"
    by (simp add: all_ready_def)
  from ready [THEN conjunct2, THEN conjunct2, THEN conjunct2, THEN conjunct2, THEN conjunct2,
      THEN conjunct1, THEN mp, OF hyp0]
  have "events (snd (connectGRPCWithRetry all_ready
         ''unix:///var/lib/kubelet/device-plugins/tun.sock'' world0)) =
          events world0 @
          concat (map (\<lambda>k. [EvNewClient ''unix:///var/lib/kubelet/device-plugins/tun.sock'',
                              EvLogged LevelDebug ''Failure, retrying'',
                              EvSleep (backoffDelay k)]) [0..<0]) @
          (if (0::nat) < 5 then [EvNewClient ''unix:///var/lib/kubelet/device-plugins/tun.sock''] else [])" .
  then have conn: "events (snd (connectGRPCWithRetry all_ready
         ''unix:///var/lib/kubelet/device-plugins/tun.sock'' world0)) =
     [EvNewClient ''unix:///var/lib/kubelet/device-plugins/tun.sock'']"
    by (simp add: world0_def)
  from six trace conn show ?thesis by (intro conjI)
qed

section \<open>Panic recovery\<close>

text \<open>
  C6, on the code. For every panic value, \<open>grpcRecovery\<close> logs the panic and increments the
  panic counter exactly once, and the error it returns is \<open>nil\<close>. Through the recovery
  interceptor the panicking RPC therefore completes with no error (a unary RPC with a
  \<open>nil\<close> response as well) instead of reporting a failure, as the claim requires; so does a
  \<open>ListAndWatch\<close> call that ends in its panic.
\<close>

theorem grpcRecovery_returns_nil:
  "grpcRecovery p w =
     (None, w\<lparr>PanicCounter := PanicCounter w + 1,
              events := events w @ [EvLogged LevelError ''Panic recovery'']\<rparr>)
   \<and> UnaryServerInterceptor grpcRecovery (Panicked p) w =
       (Returned (None, None), snd (grpcRecovery p w))
   \<and> StreamServerInterceptor grpcRecovery (Panicked p) w =
       (Returned None, snd (grpcRecovery p w))
   \<and> StreamServerInterceptor grpcRecovery
         (fst (ListAndWatch s send_result signals ChanClosed)) world0 =
       (Returned None,
        world0\<lparr>PanicCounter := 1, events := [EvLogged LevelError ''Panic recovery'']\<rparr>)"
  by (simp add: grpcRecovery_def UnaryServerInterceptor_def StreamServerInterceptor_def
        ListAndWatch_def Let_def log_call_def emit_def world0_def)

section \<open>Coordinated shutdown\<close>

lemma eg_Wait_None_iff: "eg_Wait rs = None \<longleftrightarrow> (\<forall>err. Some err \<notin> set rs)"
  by (induction rs rule: eg_Wait.induct) auto

lemma eg_Wait_small:
  "eg_Wait [r] = r" "eg_Wait [None, r] = r" "eg_Wait [r, None] = r"
  by (cases r; simp)+

text \<open>
  The results of the two tasks of \<open>shutdown\<close>. A graceful stop that finishes before \<open>dctx\<close>
  is done makes its task return that stop's result (\<open>nil\<close> for gRPC, the result of
  \<open>Shutdown\<close> for HTTP) without \<open>Stop\<close> or \<open>Close\<close>; otherwise the server is forced closed,
  the gRPC task returns \<open>nil\<close> and the HTTP task what \<open>Close\<close> returns.
\<close>

lemma shutdown_results:
  "grpc_task (Received ()) =
     ([SdLog LevelDebug ''Shutting down gRPC server'', GracefulStop], None)
   \<and> http_task (Received stop_result) close_result =
     ([SdLog LevelDebug ''Shutting down HTTP server'', Shutdown], stop_result)
   \<and> grpc_task CtxDone =
     ([SdLog LevelDebug ''Shutting down gRPC server'', GracefulStop,
       SdLog LevelInfo ''Forcing gRPC shutdown'', Stop], None)
   \<and> http_task CtxDone close_result =
     ([SdLog LevelDebug ''Shutting down HTTP server'', Shutdown,
       SdLog LevelInfo ''Forcing HTTP shutdown'', Close], close_result)
   \<and> shutdown True (Some g) (Some (h, close_result)) http_first =
       Returned \<lparr>coordinator_actions = [SdLog LevelInfo ''Shutting down''],
                 grpc_actions = fst (grpc_task g),
                 http_actions = fst (http_task h close_result),
                 shutdown_err = snd (http_task h close_result)\<rparr>
   \<and> shutdown False (Some g) (Some (h, close_result)) http_first = Blocked
   \<and> shutdown_error (shutdown True (Some g) (Some (Received stop_result, close_result)) http_first)
       = stop_result
   \<and> shutdown_error (shutdown True (Some g) (Some (CtxDone, close_result)) http_first)
       = close_result
   \<and> shutdown_error (shutdown True (Some g) None http_first) = None
   \<and> shutdown_error (shutdown True (Some CtxDone) (Some (CtxDone, None)) http_first) = None"
proof -
  have g: "snd (grpc_task g) = None"
    by (cases g) (simp_all add: grpc_task_def)
  have sd: "shutdown_error (shutdown True (Some g) (Some (sel, close_result)) http_first)
      = snd (http_task sel close_result)" for sel
    using g
    by (cases "grpc_task g"; cases "http_task sel close_result")
       (simp add: shutdown_def shutdown_error_def Let_def eg_Wait_small)
  have full: "shutdown True (Some g) (Some (h, close_result)) http_first =
       Returned \<lparr>coordinator_actions = [SdLog LevelInfo ''Shutting down''],
                 grpc_actions = fst (grpc_task g),
                 http_actions = fst (http_task h close_result),
                 shutdown_err = snd (http_task h close_result)\<rparr>"
    using g
    by (cases "grpc_task g"; cases "http_task h close_result")
       (simp add: shutdown_def Let_def eg_Wait_small)
  have blocked: "shutdown False (Some g) (Some (h, close_result)) http_first = Blocked"
    by (simp add: shutdown_def)
  have sd_none: "shutdown_error (shutdown True (Some g) None http_first) = None"
    using g by (cases "grpc_task g") (simp add: shutdown_def shutdown_error_def Let_def)
  have tasks: "grpc_task (Received ()) =
       ([SdLog LevelDebug ''Shutting down gRPC server'', GracefulStop], None)"
    "http_task (Received stop_result) close_result =
       ([SdLog LevelDebug ''Shutting down HTTP server'', Shutdown], stop_result)"
    "grpc_task CtxDone =
       ([SdLog LevelDebug ''Shutting down gRPC server'', GracefulStop,
         SdLog LevelInfo ''Forcing gRPC shutdown'', Stop], None)"
    "http_task CtxDone close_result =
       ([SdLog LevelDebug ''Shutting down HTTP server'', Shutdown,
         SdLog LevelInfo ''Forcing HTTP shutdown'', Close], close_result)"
    by (simp_all add: grpc_task_def http_task_def)
  have forced: "shutdown_error (shutdown True (Some CtxDone) (Some (CtxDone, None)) http_first) = None"
    by (simp add: shutdown_def shutdown_error_def grpc_task_def http_task_def Let_def)
  have errs: "shutdown_error (shutdown True (Some g) (Some (Received stop_result, close_result)) http_first)
       = stop_result"
    "shutdown_error (shutdown True (Some g) (Some (CtxDone, close_result)) http_first)
       = close_result"
    by (simp_all add: sd tasks)
  from tasks full blocked errs sd_none forced show ?thesis
    by (intro conjI)
qed

lemma shutdown_timed_returns:
  "shutdown_timed True st \<noteq> Blocked \<and> (\<forall>p. shutdown_timed True st \<noteq> Panicked p)"
  by (simp add: shutdown_timed_def shutdown_def Let_def)

lemma shutdown_timed_blocks: "shutdown_timed False st = Blocked"
  by (simp add: shutdown_timed_def shutdown_def Let_def)

lemma HttpTask_waited: "HttpTask \<in> set (waited fin)"
  by (simp add: waited_def)

lemma run_after_cancel:
  assumes "lifetime_cancelled env"
  shows "\<exists>err. run env = Returned (Some err)"
proof -
  from shutdown_timed_returns [of "stops env"]
  obtain sd where sd: "shutdown_timed True (stops env) = Returned sd"
    by (cases "shutdown_timed True (stops env)") auto
  have "task_result env sd HttpTask \<noteq> None"
    by (simp add: task_result_def http_server_task_def split: option.splits)
  then obtain e where "Some e \<in> set (map (task_result env sd) (waited (finished env)))"
    using HttpTask_waited [of "finished env"] by (metis image_eqI list.set_map not_None_eq)
  then have "eg_Wait (map (task_result env sd) (waited (finished env))) \<noteq> None"
    by (auto simp: eg_Wait_None_iff)
  with assms sd show ?thesis
    by (auto simp: run_def)
qed

text \<open>
  C8, on the code. The parts of the claim about \<open>shutdown\<close> hold (\<open>shutdown_results\<close>): a
  graceful stop within the grace deadline of 5s gives that stop's result, and a forced
  closure at the deadline yields no error of its own. The exit status does not follow:
  once the lifetime context of \<open>run\<close> is cancelled, by a termination signal or by a task's
  error, \<open>main\<close> exits with status 1 in every case, because the HTTP task returns what
  \<open>httpServer.Serve\<close> returns, which after \<open>Shutdown\<close> or \<open>Close\<close> is \<open>ErrServerClosed\<close>, and
  \<open>eg.Wait()\<close> hands it to \<open>main\<close> as an error. This is so when both servers stop
  gracefully after one second, the registration has succeeded and \<open>shutdown\<close> returns
  \<open>nil\<close>, and equally when both servers are forced closed at the deadline and \<open>Close\<close>
  succeeds; in neither case does the process exit 0, as the claim requires. Until the
  context is cancelled \<open>run\<close> does not return.
\<close>

theorem main_exits_1_after_every_shutdown:
  "main env = (if lifetime_cancelled env then Returned 1 else Blocked)
   \<and> sint gracePeriod = 5 * 1000000000
   \<and> shutdown_timed True (stops sigterm_graceful) =
       Returned \<lparr>coordinator_actions = [SdLog LevelInfo ''Shutting down''],
                 grpc_actions = [SdLog LevelDebug ''Shutting down gRPC server'', GracefulStop],
                 http_actions = [SdLog LevelDebug ''Shutting down HTTP server'', Shutdown],
                 shutdown_err = None\<rparr>
   \<and> run sigterm_graceful = Returned (Some ErrServerClosed)
   \<and> main sigterm_graceful = Returned 1
   \<and> shutdown_timed True (stops sigterm_forced) =
       Returned \<lparr>coordinator_actions = [SdLog LevelInfo ''Shutting down''],
                 grpc_actions = [SdLog LevelDebug ''Shutting down gRPC server'', GracefulStop,
                                 SdLog LevelInfo ''Forcing gRPC shutdown'', Stop],
                 http_actions = [SdLog LevelDebug ''Shutting down HTTP server'', Shutdown,
                                 SdLog LevelInfo ''Forcing HTTP shutdown'', Close],
                 shutdown_err = None\<rparr>
   \<and> run sigterm_forced = Returned (Some ErrServerClosed)
   \<and> main sigterm_forced = Returned 1"
proof -
  have general: "main env = (if lifetime_cancelled env then Returned 1 else Blocked)"
  proof (cases "lifetime_cancelled env")
    case True
    from run_after_cancel [OF True] obtain err where "run env = Returned (Some err)" ..
    with True show ?thesis by (simp add: main_def)
  next
    case False
    then show ?thesis by (simp add: main_def run_def shutdown_timed_blocks)
  qed
  have grace: "sint gracePeriod = 5 * 1000000000"
    by (simp add: gracePeriod_def Second_def)
  have sd_g: "shutdown_timed True (stops sigterm_graceful) =
       Returned \<lparr>coordinator_actions = [SdLog LevelInfo ''Shutting down''],
                 grpc_actions = [SdLog LevelDebug ''Shutting down gRPC server'', GracefulStop],
                 http_actions = [SdLog LevelDebug ''Shutting down HTTP server'', Shutdown],
                 shutdown_err = None\<rparr>"
    by (simp add: sigterm_graceful_def shutdown_timed_def shutdown_def select_stop_def
          grpc_task_def http_task_def Let_def gracePeriod_def Second_def)
  have sd_f: "shutdown_timed True (stops sigterm_forced) =
       Returned \<lparr>coordinator_actions = [SdLog LevelInfo ''Shutting down''],
                 grpc_actions = [SdLog LevelDebug ''Shutting down gRPC server'', GracefulStop,
                                 SdLog LevelInfo ''Forcing gRPC shutdown'', Stop],
                 http_actions = [SdLog LevelDebug ''Shutting down HTTP server'', Shutdown,
                                 SdLog LevelInfo ''Forcing HTTP shutdown'', Close],
                 shutdown_err = None\<rparr>"
    by (simp add: sigterm_forced_def shutdown_timed_def shutdown_def select_stop_def
          grpc_task_def http_task_def Let_def gracePeriod_def Second_def)
  have c_g: "lifetime_cancelled sigterm_graceful"
    by (simp add: lifetime_cancelled_def sigterm_graceful_def)
  have c_f: "lifetime_cancelled sigterm_forced"
    by (simp add: lifetime_cancelled_def sigterm_forced_def)
  have run_g: "run sigterm_graceful = Returned (Some ErrServerClosed)"
  proof -
    have "map (task_result sigterm_graceful sd) (waited (finished sigterm_graceful)) =
        [None, Some ErrServerClosed, None, shutdown_err sd]" for sd
      by (simp add: task_result_def waited_def http_server_task_def grpc_server_task_def
            sigterm_graceful_def)
    then show ?thesis
      by (simp add: run_def c_g sd_g)
  qed
  have run_f: "run sigterm_forced = Returned (Some ErrServerClosed)"
  proof -
    have "map (task_result sigterm_forced sd) (waited (finished sigterm_forced)) =
        [None, Some ErrServerClosed, None, shutdown_err sd]" for sd
      by (simp add: task_result_def waited_def http_server_task_def grpc_server_task_def
            sigterm_forced_def)
    then show ?thesis
      by (simp add: run_def c_f sd_f)
  qed
  have main_g: "main sigterm_graceful = Returned 1"
    by (simp add: main_def run_g)
  have main_f: "main sigterm_forced = Returned 1"
    by (simp add: main_def run_f)
  from general grace sd_g run_g main_g sd_f run_f main_f show ?thesis
    by (intro conjI)
qed

text \<open>The exit status after a termination signal and a graceful stop of both servers.\<close>

theorem main_exits_1_after_every_shutdown_witness:
  "lifetime_cancelled sigterm_graceful \<and> main sigterm_graceful = Returned 1"
proof -
  have c: "lifetime_cancelled sigterm_graceful"
    by (simp add: lifetime_cancelled_def sigterm_graceful_def)
  have "main sigterm_graceful = (if lifetime_cancelled sigterm_graceful then Returned 1 else Blocked)"
    by (rule main_exits_1_after_every_shutdown [of sigterm_graceful, THEN conjunct1])
  with c show ?thesis by simp
qed

end
